theory Spec2Isabelle
  imports Main
begin

section \<open>Python values shared by the two scripts\<close>

text \<open>
  The exceptions the two scripts can raise. \<open>KeyError\<close> is what a missing dictionary key,
  a missing archive member and a duplicate entry name of the remote dataset raise;
  \<open>OtherError\<close> stands for every exception of the external collaborators (the chemistry
  toolkit, the JSON parser, the remote service) that the scripts neither raise themselves
  nor catch.
\<close>

datatype exn =
    KeyError string
  | AssertionError string
  | IndexError
  | FileNotFoundError string
  | OtherError string

subsection \<open>Values read from a JSON file\<close>

text \<open>
  \<open>json.load\<close> does not check what a field holds: the value stored under a name of an
  attributes mapping is whatever the file has there. These are the scalar values it can
  be, as Python holds them after parsing: \<open>None\<close> for \<open>null\<close>, a \<open>bool\<close>, an \<open>int\<close> and
  a \<open>str\<close>. The type stops there. A number with a fraction or an exponent becomes a
  \<open>float\<close>, which stands to the \<open>int\<close> of the same value as \<open>True\<close> stands to \<open>1\<close>
  (the same dictionary key, another rendering); its \<open>repr\<close> is not modelled. An array
  or an object cannot be a dictionary key: with one of them as base identifier the
  counter lookup of \<open>read_molecules\<close> raises \<open>TypeError\<close> before any key is derived.
\<close>

datatype jval = JNull | JBool bool | JInt int | JStr string

subsection \<open>Decimal rendering of an integer inside an f-string\<close>

definition digit_char :: "nat \<Rightarrow> char" where
  "digit_char d = ''0123456789'' ! d"

fun str_nat :: "nat \<Rightarrow> string" where
  "str_nat n = (if n < 10 then [digit_char n]
                else str_nat (n div 10) @ [digit_char (n mod 10)])"

declare str_nat.simps [simp del]

definition str_int :: "int \<Rightarrow> string" where
  "str_int i = (if i < 0 then CHR ''-'' # str_nat (nat (- i)) else str_nat (nat i))"

subsection \<open>Dictionaries in insertion order\<close>

text \<open>
  A Python \<open>dict\<close> keeps its keys in insertion order: assigning to a key that is present
  replaces the value in place, assigning to a new key appends it.
\<close>

type_synonym ('k, 'v) dict = "('k \<times> 'v) list"

definition dict_contains :: "'k \<Rightarrow> ('k, 'v) dict \<Rightarrow> bool" where
  "dict_contains k d = (k \<in> set (map fst d))"

fun dict_set :: "('k, 'v) dict \<Rightarrow> 'k \<Rightarrow> 'v \<Rightarrow> ('k, 'v) dict" where
  "dict_set [] k v = [(k, v)]"
| "dict_set ((k', v') # d) k v =
     (if k' = k then (k, v) # d else (k', v') # dict_set d k v)"

definition dict_get :: "('k, 'v) dict \<Rightarrow> 'k \<Rightarrow> 'v \<Rightarrow> 'v" where
  "dict_get d k dflt = (case map_of d k of None \<Rightarrow> dflt | Some v \<Rightarrow> v)"

text \<open>A \<open>collections.Counter\<close> reads a missing key as 0, without inserting it.\<close>

definition counter_get :: "('k, int) dict \<Rightarrow> 'k \<Rightarrow> int" where
  "counter_get c k = (case map_of c k of None \<Rightarrow> 0 | Some n \<Rightarrow> n)"

text \<open>
  What the replacement field \<open>{index}\<close> of an f-string renders: \<open>format(index)\<close>, which
  is \<open>str(index)\<close> for these values.
\<close>

fun py_str :: "jval \<Rightarrow> string" where
  "py_str JNull = ''None''"
| "py_str (JBool b) = (if b then ''True'' else ''False'')"
| "py_str (JInt i) = str_int i"
| "py_str (JStr s) = s"

text \<open>
  Dictionary keys are compared with \<open>==\<close> (and hashed accordingly). Among these values
  \<open>True == 1\<close> and \<open>False == 0\<close>, and no other two different values are equal; a
  string is equal to nothing but itself. \<open>py_key\<close> maps a value to the representative
  of its class, so that two values are the same dictionary key exactly when their
  \<open>py_key\<close> is the same.
\<close>

fun py_key :: "jval \<Rightarrow> jval" where
  "py_key (JBool b) = JInt (if b then 1 else 0)"
| "py_key v = v"

text \<open>An attributes mapping of the input, such as \<open>cmiles_identifiers\<close>.\<close>

type_synonym attrs = "(string, jval) dict"

section \<open>Optimization script: \<open>create_optimization_dataset.py\<close>\<close>

subsection \<open>\<open>read_molecules\<close>\<close>

text \<open>
  One element of the list in the input file, in the documented shape
  \<open>{'initial_molecules': [..], 'cmiles_identifiers': {}}\<close>. The type \<open>'raw\<close> is a molecule
  as the JSON file holds it.
\<close>

record 'raw mdata =
  initial_molecules :: "'raw list"
  cmiles_identifiers :: attrs

text \<open>
  The inner loop over the conformers of one record. \<open>from_data\<close> is the toolkit's
  \<open>Molecule.from_data\<close>, which returns a molecule or the message of the error it raises;
  the three dictionaries are the local variables
  \<open>molecules_dict\<close>, \<open>molecule_attributes\<close> and \<open>index_counter\<close>.
\<close>

fun conformer_loop ::
  "('raw \<Rightarrow> string + 'mol) \<Rightarrow> jval \<Rightarrow> attrs \<Rightarrow> 'raw list \<Rightarrow>
   (string, 'mol) dict \<Rightarrow> (string, attrs) dict \<Rightarrow> (jval, int) dict \<Rightarrow>
   exn + ((string, 'mol) dict \<times> (string, attrs) dict \<times> (jval, int) dict)" where
  "conformer_loop from_data index cmiles_ids [] molecules_dict molecule_attributes index_counter =
     Inr (molecules_dict, molecule_attributes, index_counter)"
| "conformer_loop from_data index cmiles_ids (initial_molecule # rest)
       molecules_dict molecule_attributes index_counter =
     (case from_data initial_molecule of
        Inl msg \<Rightarrow> Inl (OtherError msg)
      | Inr qcel_molecule \<Rightarrow>
          (let index_count = counter_get index_counter (py_key index);
               this_index = py_str index @ ''-'' @ str_int index_count;
               index_counter' = dict_set index_counter (py_key index) (index_count + 1)
           in if dict_contains this_index molecules_dict
              then Inl (AssertionError ''Multiple molecules have the same index'')
              else conformer_loop from_data index cmiles_ids rest
                     (dict_set molecules_dict this_index qcel_molecule)
                     (dict_set molecule_attributes this_index cmiles_ids)
                     index_counter'))"

text \<open>The outer loop over the records of the file.\<close>

fun mdata_loop ::
  "('raw \<Rightarrow> string + 'mol) \<Rightarrow> 'raw mdata list \<Rightarrow>
   (string, 'mol) dict \<Rightarrow> (string, attrs) dict \<Rightarrow> (jval, int) dict \<Rightarrow>
   exn + ((string, 'mol) dict \<times> (string, attrs) dict \<times> (jval, int) dict)" where
  "mdata_loop from_data [] molecules_dict molecule_attributes index_counter =
     Inr (molecules_dict, molecule_attributes, index_counter)"
| "mdata_loop from_data (mdata # rest) molecules_dict molecule_attributes index_counter =
     (let cmiles_ids = cmiles_identifiers mdata
      in case map_of cmiles_ids ''canonical_isomeric_smiles'' of
           None \<Rightarrow> Inl (KeyError ''canonical_isomeric_smiles'')
         | Some index \<Rightarrow>
             (case conformer_loop from_data index cmiles_ids (initial_molecules mdata)
                     molecules_dict molecule_attributes index_counter of
                Inl e \<Rightarrow> Inl e
              | Inr (molecules_dict', molecule_attributes', index_counter') \<Rightarrow>
                  mdata_loop from_data rest molecules_dict' molecule_attributes' index_counter'))"

text \<open>
  The file system is a map from a path to what is stored there: a text file, or a
  gzip-compressed tar archive with its members.
\<close>

datatype stored = TextFile string | TarGz "(string, string) dict"

type_synonym fs = "string \<Rightarrow> stored option"

text \<open>
  \<open>open(path)\<close> followed by \<open>json.load\<close>. The parser is a parameter: it returns the
  parsed value, or the message of the error it raises.
\<close>

definition open_json :: "fs \<Rightarrow> (string \<Rightarrow> string + 'j) \<Rightarrow> string \<Rightarrow> exn + 'j" where
  "open_json files json_load path =
     (case files path of
        None \<Rightarrow> Inl (FileNotFoundError path)
      | Some (TextFile txt) \<Rightarrow>
          (case json_load txt of Inl msg \<Rightarrow> Inl (OtherError msg) | Inr j \<Rightarrow> Inr j)
      | Some (TarGz members) \<Rightarrow> Inl (OtherError ''not a JSON text''))"

definition read_molecules ::
  "fs \<Rightarrow> (string \<Rightarrow> string + 'raw mdata list) \<Rightarrow> ('raw \<Rightarrow> string + 'mol) \<Rightarrow>
   string \<Rightarrow>
   exn + ((string, 'mol) dict \<times> (string, attrs) dict)" where
  "read_molecules files json_load from_data input_json =
     (case open_json files json_load input_json of
        Inl e \<Rightarrow> Inl e
      | Inr molecule_data_list \<Rightarrow>
          (case mdata_loop from_data molecule_data_list [] [] [] of
             Inl e \<Rightarrow> Inl e
           | Inr (molecules_dict, molecule_attributes, index_counter) \<Rightarrow>
               Inr (molecules_dict, molecule_attributes)))"


subsection \<open>The remote dataset\<close>

text \<open>
  The remote service is observed through the calls a script makes on the dataset handle,
  in order. \<open>AddEntry\<close> carries the arguments of the call and what the call did:
  \<open>None\<close> when it returned, \<open>Some e\<close> when it raised \<open>e\<close>. The service itself is a
  parameter \<open>add_entry\<close> of the scripts: given the calls made so far and the arguments,
  it says whether the call returns or raises. Every other call on the handle is taken to
  return. \<open>NewDataset\<close> stands for the construction of the client (from a configuration
  file, when one is named) and of the dataset under its name; \<open>AddSpecification\<close>
  carries the name of the specification, the method and the basis.
\<close>

datatype 'call event =
    NewDataset "string option" string
  | AddSpecification string string string
  | AddEntry 'call "exn option"
  | Save
  | Compute string "string option"

fun is_added :: "'call event \<Rightarrow> bool" where
  "is_added (AddEntry call None) = True"
| "is_added _ = False"

fun is_KeyError :: "exn \<Rightarrow> bool" where
  "is_KeyError (KeyError k) = True"
| "is_KeyError _ = False"

subsection \<open>\<open>create_optimization_dataset\<close> and \<open>main\<close>\<close>

record 'mol opt_call =
  entry_index :: string
  entry_molecule :: 'mol
  entry_attributes :: attrs

text \<open>The loop \<open>for molecule_index, molecule in molecules_dict.items()\<close>.\<close>

fun add_molecules ::
  "('mol opt_call event list \<Rightarrow> 'mol opt_call \<Rightarrow> exn option) \<Rightarrow>
   (string, 'mol) dict \<Rightarrow> (string, attrs) dict \<Rightarrow> 'mol opt_call event list \<Rightarrow>
   exn option \<times> 'mol opt_call event list" where
  "add_molecules add_entry [] molecule_attributes calls = (None, calls)"
| "add_molecules add_entry ((molecule_index, molecule) # rest) molecule_attributes calls =
     (let attributes = dict_get molecule_attributes molecule_index [];
          call = \<lparr>entry_index = molecule_index, entry_molecule = molecule,
                  entry_attributes = attributes\<rparr>
      in case add_entry calls call of
           None \<Rightarrow> add_molecules add_entry rest molecule_attributes (calls @ [AddEntry call None])
         | Some e \<Rightarrow> (Some e, calls @ [AddEntry call (Some e)]))"

text \<open>
  \<open>create_optimization_dataset\<close> with its parameters in the order of the source. The
  client is built from \<open>client_config_file\<close> and the dataset is created under
  \<open>dataset_name\<close>; the specification is registered under \<open>spec_name\<close> with
  \<open>qm_method\<close> and \<open>qm_basis\<close>; then the loop; then \<open>compute\<close> when
  \<open>start_compute\<close> is set.
\<close>

definition create_optimization_dataset ::
  "('mol opt_call event list \<Rightarrow> 'mol opt_call \<Rightarrow> exn option) \<Rightarrow>
   (string, 'mol) dict \<Rightarrow> string \<Rightarrow> string \<Rightarrow> string \<Rightarrow> string \<Rightarrow> string \<Rightarrow>
   (string, attrs) dict \<Rightarrow> bool \<Rightarrow>
   exn option \<times> 'mol opt_call event list" where
  "create_optimization_dataset add_entry molecules_dict client_config_file dataset_name
       qm_method qm_basis spec_name molecule_attributes start_compute =
     (case add_molecules add_entry molecules_dict molecule_attributes
             [NewDataset (Some client_config_file) dataset_name,
              AddSpecification spec_name qm_method qm_basis] of
        (Some e, calls) \<Rightarrow> (Some e, calls)
      | (None, calls) \<Rightarrow>
          (None, if start_compute then calls @ [Compute spec_name None] else calls))"


section \<open>Torsion script: \<open>02_create_torsiondrive_dataset.py\<close>\<close>

subsection \<open>Loading the selected torsions\<close>

definition read_selected_torsions ::
  "fs \<Rightarrow> (string \<Rightarrow> string + 'j) \<Rightarrow> string \<Rightarrow> exn + 'j" where
  "read_selected_torsions files json_load input_json = open_json files json_load input_json"

definition tarfile_open :: "fs \<Rightarrow> string \<Rightarrow> exn + (string, string) dict" where
  "tarfile_open files path =
     (case files path of
        None \<Rightarrow> Inl (FileNotFoundError path)
      | Some (TextFile txt) \<Rightarrow> Inl (OtherError ''not a tar archive'')
      | Some (TarGz members) \<Rightarrow> Inr members)"

text \<open>
  \<open>TarFile.extractfile\<close> returns a reader over the bytes of the member, and raises
  \<open>KeyError\<close> when the archive has no such member. It writes nothing: the file system is
  the same after the call.
\<close>

definition extractfile :: "(string, string) dict \<Rightarrow> string \<Rightarrow> exn + string" where
  "extractfile members member =
     (case map_of members member of None \<Rightarrow> Inl (KeyError member) | Some bytes \<Rightarrow> Inr bytes)"

text \<open>
  Lines 36 to 39 of the script. The reader that \<open>extractfile\<close> returns is dropped, so
  \<open>read_selected_torsions\<close> sees the file system the script started with.
\<close>

definition load_selected_torsions :: "fs \<Rightarrow> (string \<Rightarrow> string + 'j) \<Rightarrow> exn + 'j" where
  "load_selected_torsions files json_load =
     (case (if files ''coverage_selected_torsions.json'' = None
            then (case tarfile_open files ''coverage_selected_torsions.json.tar.gz'' of
                    Inl e \<Rightarrow> Inl e
                  | Inr f \<Rightarrow>
                      (case extractfile f ''coverage_selected_torsions.json'' of
                         Inl e \<Rightarrow> Inl e
                       | Inr reader \<Rightarrow> Inr files))
            else Inr files) of
        Inl e \<Rightarrow> Inl e
      | Inr files' \<Rightarrow>
          read_selected_torsions files' json_load ''coverage_selected_torsions.json'')"

subsection \<open>The entry loop\<close>

text \<open>One value of the loaded mapping; the field names carry the prefix \<open>td_\<close>.\<close>

record 'raw torsion_data =
  td_attributes :: attrs
  td_atom_indices :: "int list list"
  td_initial_molecules :: "'raw list"

text \<open>What the script reads of a toolkit molecule.\<close>

record 'geom molecule =
  symbols :: "string list"
  geometry :: 'geom

text \<open>
  The arguments of \<open>ds.add_entry\<close> that vary; \<open>energy_upper_limit=0.05\<close> and
  \<open>save=False\<close> are the same in every call.
\<close>

record 'raw torsion_call =
  call_index :: string
  call_initial_molecules :: "'raw list"
  call_atom_indices :: "int list list"
  call_grid_spacings :: "int list"
  call_attributes :: attrs

text \<open>
  The body of the loop for one item of \<open>selected_torsions\<close>. \<open>Molecule\<close> is the toolkit's
  constructor (a molecule, or the message of the error it raises) and
  \<open>guess_connectivity\<close> its bond heuristic. The result is the exception raised (if any),
  the counter \<open>i\<close> and the calls made on the dataset so far.
\<close>

definition entry_step ::
  "('raw \<Rightarrow> string + 'geom molecule) \<Rightarrow> (string list \<Rightarrow> 'geom \<Rightarrow> (nat \<times> nat) list) \<Rightarrow>
   ('raw torsion_call event list \<Rightarrow> 'raw torsion_call \<Rightarrow> exn option) \<Rightarrow>
   string \<times> 'raw torsion_data \<Rightarrow> int \<Rightarrow> 'raw torsion_call event list \<Rightarrow>
   exn option \<times> int \<times> 'raw torsion_call event list" where
  "entry_step Molecule guess_connectivity add_entry item i calls =
     (let canonical_torsion_index = fst item;
          torsion_data = snd item;
          attributes = td_attributes torsion_data;
          torsion_atom_indices = td_atom_indices torsion_data;
          grid_spacings = replicate (length torsion_atom_indices) 15;
          initial_molecules = td_initial_molecules torsion_data
      in case initial_molecules of
           [] \<Rightarrow> (Some IndexError, i, calls)
         | first # others \<Rightarrow>
             (case Molecule first of
                Inl msg \<Rightarrow> (Some (OtherError msg), i, calls)
              | Inr molecule \<Rightarrow>
                  (let conn = guess_connectivity (symbols molecule) (geometry molecule)
                   in if \<not> (length conn + 3 > length (symbols molecule))
                      then (Some (AssertionError ''conn''), i, calls)
                      else
                        (let call = \<lparr>call_index = canonical_torsion_index,
                                       call_initial_molecules = initial_molecules,
                                       call_atom_indices = torsion_atom_indices,
                                       call_grid_spacings = grid_spacings,
                                       call_attributes = attributes\<rparr>
                         in case add_entry calls call of
                              None \<Rightarrow>
                                (let i' = i + 1;
                                     calls' = calls @ [AddEntry call None]
                                 in if i' mod 30 = 0 then (None, i', calls' @ [Save])
                                    else (None, i', calls'))
                            | Some e \<Rightarrow>
                                if is_KeyError e then (None, i, calls @ [AddEntry call (Some e)])
                                else (Some e, i, calls @ [AddEntry call (Some e)])))))"

fun entry_loop ::
  "('raw \<Rightarrow> string + 'geom molecule) \<Rightarrow> (string list \<Rightarrow> 'geom \<Rightarrow> (nat \<times> nat) list) \<Rightarrow>
   ('raw torsion_call event list \<Rightarrow> 'raw torsion_call \<Rightarrow> exn option) \<Rightarrow>
   (string, 'raw torsion_data) dict \<Rightarrow> int \<Rightarrow> 'raw torsion_call event list \<Rightarrow>
   exn option \<times> int \<times> 'raw torsion_call event list" where
  "entry_loop Molecule guess_connectivity add_entry [] i calls = (None, i, calls)"
| "entry_loop Molecule guess_connectivity add_entry (item # rest) i calls =
     (case entry_step Molecule guess_connectivity add_entry item i calls of
        (Some e, i', calls') \<Rightarrow> (Some e, i', calls')
      | (None, i', calls') \<Rightarrow> entry_loop Molecule guess_connectivity add_entry rest i' calls')"

text \<open>
  The script from the creation of the dataset (\<open>UPDATE\<close> is \<open>False\<close>, the client
  is built from the default configuration) and of its specification \<open>default\<close> to its
  end: the loop from \<open>i = 0\<close>, then \<open>ds.save()\<close> and
  \<open>ds.compute("default", tag="openff")\<close>.
\<close>

definition submit_torsions ::
  "('raw \<Rightarrow> string + 'geom molecule) \<Rightarrow> (string list \<Rightarrow> 'geom \<Rightarrow> (nat \<times> nat) list) \<Rightarrow>
   ('raw torsion_call event list \<Rightarrow> 'raw torsion_call \<Rightarrow> exn option) \<Rightarrow>
   (string, 'raw torsion_data) dict \<Rightarrow>
   exn option \<times> int \<times> 'raw torsion_call event list" where
  "submit_torsions Molecule guess_connectivity add_entry selected_torsions =
     (case entry_loop Molecule guess_connectivity add_entry selected_torsions 0
             [NewDataset None ''OpenFF Gen 2 Torsion Set 2 Coverage'',
              AddSpecification ''default'' ''B3LYP-d3bj'' ''dzvp''] of
        (Some e, i, calls) \<Rightarrow> (Some e, i, calls)
      | (None, i, calls) \<Rightarrow> (None, i, calls @ [Save, Compute ''default'' (Some ''openff'')]))"

definition torsion_script ::
  "fs \<Rightarrow> (string \<Rightarrow> string + (string, 'raw torsion_data) dict) \<Rightarrow>
   ('raw \<Rightarrow> string + 'geom molecule) \<Rightarrow> (string list \<Rightarrow> 'geom \<Rightarrow> (nat \<times> nat) list) \<Rightarrow>
   ('raw torsion_call event list \<Rightarrow> 'raw torsion_call \<Rightarrow> exn option) \<Rightarrow>
   exn option \<times> int \<times> 'raw torsion_call event list" where
  "torsion_script files json_load Molecule guess_connectivity add_entry =
     (case load_selected_torsions files json_load of
        Inl e \<Rightarrow> (Some e, 0, [])
      | Inr selected_torsions \<Rightarrow>
          submit_torsions Molecule guess_connectivity add_entry selected_torsions)"

section \<open>Notions used in the statements, and example inputs\<close>

text \<open>
  \<open>key_at bs j\<close> is the key of the molecule at position \<open>j\<close> when the base identifiers
  of the molecules are \<open>bs\<close> in encounter order: the rendering of its base identifier, a
  dash, and the number of earlier molecules whose base identifier is the same dictionary
  key. \<open>bases\<close> lists the base identifier of every molecule of a file, \<open>attrs_seq\<close> the
  attributes mapping of every molecule.
\<close>

definition key_at :: "jval list \<Rightarrow> nat \<Rightarrow> string" where
  "key_at bs j =
     py_str (bs ! j) @ ''-'' @
     str_int (int (count_list (map py_key (take j bs)) (py_key (bs ! j))))"

definition keys_for :: "jval list \<Rightarrow> string list" where
  "keys_for bs = map (key_at bs) [0..<length bs]"

definition bases :: "'raw mdata list \<Rightarrow> jval list" where
  "bases recs =
     concat (map (\<lambda>mdata. replicate (length (initial_molecules mdata))
                    (dict_get (cmiles_identifiers mdata) ''canonical_isomeric_smiles'' (JStr []))) recs)"

definition attrs_seq :: "'raw mdata list \<Rightarrow> attrs list" where
  "attrs_seq recs =
     concat (map (\<lambda>mdata. replicate (length (initial_molecules mdata)) (cmiles_identifiers mdata)) recs)"

definition example_recs :: "nat mdata list" where
  "example_recs =
     [\<lparr>initial_molecules = [1, 2], cmiles_identifiers = [(''canonical_isomeric_smiles'', JStr ''CCO'')]\<rparr>,
      \<lparr>initial_molecules = [3], cmiles_identifiers = [(''canonical_isomeric_smiles'', JStr ''C'')]\<rparr>,
      \<lparr>initial_molecules = [4], cmiles_identifiers = [(''canonical_isomeric_smiles'', JStr ''CCO'')]\<rparr>]"

definition example_files :: fs where
  "example_files = (\<lambda>p. if p = ''input.json'' then Some (TextFile ''input'') else None)"

definition example_json_load :: "string \<Rightarrow> string + nat mdata list" where
  "example_json_load txt = (if txt = ''input'' then Inr example_recs else Inl ''invalid JSON'')"

definition example_molecules_dict :: "(string, nat) dict" where
  "example_molecules_dict = [(''CCO-0'', 1), (''CCO-1'', 2), (''C-0'', 3), (''CCO-2'', 4)]"

definition example_molecule_attributes :: "(string, attrs) dict" where
  "example_molecule_attributes =
     [(''CCO-0'', [(''canonical_isomeric_smiles'', JStr ''CCO'')]),
      (''CCO-1'', [(''canonical_isomeric_smiles'', JStr ''CCO'')]),
      (''C-0'', [(''canonical_isomeric_smiles'', JStr ''C'')]),
      (''CCO-2'', [(''canonical_isomeric_smiles'', JStr ''CCO'')])]"

definition torsion_call_of :: "string \<times> 'raw torsion_data \<Rightarrow> 'raw torsion_call" where
  "torsion_call_of item =
     \<lparr>call_index = fst item,
      call_initial_molecules = td_initial_molecules (snd item),
      call_atom_indices = td_atom_indices (snd item),
      call_grid_spacings = replicate (length (td_atom_indices (snd item))) 15,
      call_attributes = td_attributes (snd item)\<rparr>"

fun add_calls :: "'call event list \<Rightarrow> 'call list" where
  "add_calls [] = []"
| "add_calls (AddEntry call outcome # calls) = call # add_calls calls"
| "add_calls (other # calls) = add_calls calls"

fun is_save :: "'call event \<Rightarrow> bool" where
  "is_save Save = True"
| "is_save _ = False"

definition added_count :: "'call event list \<Rightarrow> nat" where
  "added_count calls = length (filter is_added calls)"

definition save_count :: "'call event list \<Rightarrow> nat" where
  "save_count calls = length (filter is_save calls)"

definition example_accept_all :: "'call event list \<Rightarrow> 'call \<Rightarrow> exn option" where
  "example_accept_all calls call = None"

definition example_reject_first :: "nat opt_call event list \<Rightarrow> nat opt_call \<Rightarrow> exn option" where
  "example_reject_first calls call =
     (if entry_index call = ''CCO-0'' then Some (KeyError ''CCO-0'') else None)"

definition example_Molecule :: "string list \<times> (nat \<times> nat) list \<Rightarrow> string + (nat \<times> nat) list molecule" where
  "example_Molecule raw = Inr \<lparr>symbols = fst raw, geometry = snd raw\<rparr>"

definition example_guess_connectivity :: "string list \<Rightarrow> (nat \<times> nat) list \<Rightarrow> (nat \<times> nat) list" where
  "example_guess_connectivity syms geom = geom"

definition example_ethane :: "string list \<times> (nat \<times> nat) list" where
  "example_ethane =
     ([''C'', ''C'', ''H'', ''H'', ''H'', ''H'', ''H'', ''H''],
      [(0, 1), (0, 2), (0, 3), (0, 4), (1, 5), (1, 6), (1, 7)])"

definition example_fragments :: "string list \<times> (nat \<times> nat) list" where
  "example_fragments = ([''H'', ''H'', ''H'', ''H'', ''H'', ''H''], [(0, 1), (2, 3), (4, 5)])"

definition example_rot_1 :: "string \<times> (string list \<times> (nat \<times> nat) list) torsion_data" where
  "example_rot_1 =
     (''rot_1'',
      \<lparr>td_attributes = [(''canonical_isomeric_smiles'', JStr ''CC'')],
       td_atom_indices = [[0, 1, 2, 3]],
       td_initial_molecules = [example_ethane]\<rparr>)"

definition example_rot_2 :: "string \<times> (string list \<times> (nat \<times> nat) list) torsion_data" where
  "example_rot_2 =
     (''rot_2'',
      \<lparr>td_attributes = [(''canonical_isomeric_smiles'', JStr ''CC'')],
       td_atom_indices = [[2, 0, 1, 5], [3, 0, 1, 6]],
       td_initial_molecules = [example_ethane, example_ethane]\<rparr>)"

definition example_rot_bad :: "string \<times> (string list \<times> (nat \<times> nat) list) torsion_data" where
  "example_rot_bad =
     (''rot_bad'',
      \<lparr>td_attributes = [(''canonical_isomeric_smiles'', JStr ''[H][H]'')],
       td_atom_indices = [[0, 1, 2, 3]],
       td_initial_molecules = [example_fragments]\<rparr>)"

definition example_reject_rot_1 ::
  "(string list \<times> (nat \<times> nat) list) torsion_call event list \<Rightarrow>
   (string list \<times> (nat \<times> nat) list) torsion_call \<Rightarrow> exn option" where
  "example_reject_rot_1 calls call =
     (if call_index call = ''rot_1'' then Some (KeyError ''rot_1'') else None)"

definition example_archive_only :: fs where
  "example_archive_only =
     (\<lambda>p. if p = ''coverage_selected_torsions.json.tar.gz''
          then Some (TarGz [(''coverage_selected_torsions.json'', ''selected'')])
          else None)"

definition example_torsion_json_load ::
  "string \<Rightarrow> string + (string, (string list \<times> (nat \<times> nat) list) torsion_data) dict" where
  "example_torsion_json_load txt =
     (if txt = ''selected'' then Inr [example_rot_1] else Inl ''invalid JSON'')"

definition example_molecules_dict_shifted :: "(string, nat) dict" where
  "example_molecules_dict_shifted = [(''CCO-0'', 11), (''CCO-1'', 12), (''C-0'', 13), (''CCO-2'', 14)]"

definition saves_inv :: "int \<Rightarrow> 'call event list \<Rightarrow> bool" where
  "saves_inv i calls \<longleftrightarrow>
     i = int (added_count calls) \<and>
     save_count calls = nat (i div 30) \<and>
     (\<forall>k<length calls. is_save (calls ! k) \<longrightarrow>
        0 < k \<and> is_added (calls ! (k - 1)) \<and>
        0 < added_count (take k calls) \<and> added_count (take k calls) mod 30 = 0) \<and>
     (\<forall>k<length calls. is_added (calls ! k) \<and> added_count (take (Suc k) calls) mod 30 = 0 \<longrightarrow>
        Suc k < length calls \<and> is_save (calls ! Suc k))"

definition opt_call_of :: "(string, attrs) dict \<Rightarrow> string \<times> 'mol \<Rightarrow> 'mol opt_call" where
  "opt_call_of molecule_attributes p =
     \<lparr>entry_index = fst p, entry_molecule = snd p,
      entry_attributes = dict_get molecule_attributes (fst p) []\<rparr>"

definition example_thirty :: "(string, (string list \<times> (nat \<times> nat) list) torsion_data) dict" where
  "example_thirty = map (\<lambda>n. (''rot_'' @ str_int (int n), snd example_rot_1)) [0..<30]"

text \<open>
  Two files whose base identifiers are not all strings: in the first the number \<open>1\<close> and
  the string \<open>"1"\<close>, in the second the number \<open>1\<close> and \<open>true\<close>.
\<close>

definition example_mixed_recs :: "nat mdata list" where
  "example_mixed_recs =
     [\<lparr>initial_molecules = [1], cmiles_identifiers = [(''canonical_isomeric_smiles'', JInt 1)]\<rparr>,
      \<lparr>initial_molecules = [2], cmiles_identifiers = [(''canonical_isomeric_smiles'', JStr ''1'')]\<rparr>]"

definition example_mixed_json_load :: "string \<Rightarrow> string + nat mdata list" where
  "example_mixed_json_load txt = (if txt = ''input'' then Inr example_mixed_recs else Inl ''invalid JSON'')"



text \<open>A toolkit constructor that does not return what it is given.\<close>

definition example_shift :: "nat \<Rightarrow> string + nat" where
  "example_shift m = Inr (m + 10)"


section \<open>The keys the indexer derives\<close>

subsection \<open>The decimal rendering is injective and has no dash\<close>

lemma of_char_digit: "d < 10 \<Longrightarrow> (of_char (digit_char d) :: nat) = 48 + d"
proof -
  assume "d < 10"
  then have "d = 0 \<or> d = 1 \<or> d = 2 \<or> d = 3 \<or> d = 4 \<or> d = 5 \<or> d = 6 \<or> d = 7 \<or> d = 8 \<or> d = 9"
    by arith
  then show ?thesis by (elim disjE) (simp_all add: digit_char_def)
qed

lemma digit_char_neq_dash: "d < 10 \<Longrightarrow> digit_char d \<noteq> CHR ''-''"
proof
  assume d: "d < 10" and e: "digit_char d = CHR ''-''"
  have a: "(of_char (digit_char d) :: nat) = 48 + d" using d by (rule of_char_digit)
  have "(of_char (digit_char d) :: nat) = of_char (CHR ''-'')" by (rule arg_cong [OF e])
  then have "48 + d = (45 :: nat)" unfolding a by simp
  then show False by simp
qed

lemma digit_char_inj: "d < 10 \<Longrightarrow> d' < 10 \<Longrightarrow> digit_char d = digit_char d' \<Longrightarrow> d = d'"
proof -
  assume d: "d < 10" and d': "d' < 10" and e: "digit_char d = digit_char d'"
  have a: "(of_char (digit_char d) :: nat) = 48 + d" using d by (rule of_char_digit)
  have b: "(of_char (digit_char d') :: nat) = 48 + d'" using d' by (rule of_char_digit)
  have "(of_char (digit_char d) :: nat) = of_char (digit_char d')" by (rule arg_cong [OF e])
  then show ?thesis unfolding a b by simp
qed

lemma str_nat_no_dash: "CHR ''-'' \<notin> set (str_nat n)"
proof (induction n rule: str_nat.induct)
  case (1 n)
  show ?case
  proof (cases "n < 10")
    case True
    then show ?thesis using digit_char_neq_dash [of n] by (subst str_nat.simps) auto
  next
    case False
    then show ?thesis using 1 digit_char_neq_dash [of "n mod 10"]
      by (subst str_nat.simps) auto
  qed
qed

lemma str_nat_nonempty: "str_nat n \<noteq> []"
  by (subst str_nat.simps) simp

lemma str_nat_inj: "str_nat n = str_nat m \<Longrightarrow> n = m"
proof (induction n arbitrary: m rule: str_nat.induct)
  case (1 n)
  show ?case
  proof (cases "n < 10")
    case n: True
    show ?thesis
    proof (cases "m < 10")
      case True
      then show ?thesis using n "1.prems" digit_char_inj [of n m]
        by (simp add: str_nat.simps [of n] str_nat.simps [of m])
    next
      case False
      then show ?thesis using n "1.prems" str_nat_nonempty [of "m div 10"]
        by (simp add: str_nat.simps [of n] str_nat.simps [of m])
    qed
  next
    case n: False
    show ?thesis
    proof (cases "m < 10")
      case True
      then show ?thesis using n "1.prems" str_nat_nonempty [of "n div 10"]
        by (simp add: str_nat.simps [of n] str_nat.simps [of m])
    next
      case False
      then have e: "str_nat (n div 10) = str_nat (m div 10)"
        and d: "digit_char (n mod 10) = digit_char (m mod 10)"
        using n "1.prems" by (simp_all add: str_nat.simps [of n] str_nat.simps [of m])
      have "n div 10 = m div 10" using "1.IH" [OF n e] .
      moreover have "n mod 10 = m mod 10" using d digit_char_inj [of "n mod 10" "m mod 10"] by simp
      ultimately show ?thesis by (metis div_mult_mod_eq)
    qed
  qed
qed

lemma str_int_of_nat: "str_int (int n) = str_nat n"
  by (simp add: str_int_def)

lemma last_dash_split:
  "c \<notin> set s \<Longrightarrow> c \<notin> set s' \<Longrightarrow> b @ c # s = b' @ c # s' \<Longrightarrow> b = b' \<and> s = s'"
proof (induction b arbitrary: b')
  case Nil
  then show ?case by (cases b') auto
next
  case (Cons x b)
  show ?case
  proof (cases b')
    case Nil
    then show ?thesis using Cons.prems by auto
  next
    case (Cons y b'')
    then show ?thesis using Cons.IH [of b''] Cons.prems by auto
  qed
qed

lemma key_inj:
  "b @ ''-'' @ str_int (int n) = b' @ ''-'' @ str_int (int m) \<Longrightarrow> b = b' \<and> n = m"
  using last_dash_split [of "CHR ''-''" "str_nat n" "str_nat m" b b'] str_nat_no_dash str_nat_inj
  by (auto simp add: str_int_of_nat)

lemma key_at_snoc: "j < length bs \<Longrightarrow> key_at (bs @ [b]) j = key_at bs j"
  by (simp add: key_at_def nth_append)

lemma keys_for_snoc:
  "keys_for (bs @ [b]) =
   keys_for bs @ [py_str b @ ''-'' @ str_int (int (count_list (map py_key bs) (py_key b)))]"
  by (simp add: keys_for_def key_at_snoc) (simp add: key_at_def)


lemma keys_for_append: "\<exists>ks. keys_for (bs @ cs) = keys_for bs @ ks"
proof (induction cs rule: rev_induct)
  case Nil
  show ?case by simp
next
  case (snoc c cs)
  then obtain ks where "keys_for (bs @ cs) = keys_for bs @ ks" ..
  then have "keys_for (bs @ cs @ [c]) =
      keys_for bs @ (ks @ [py_str c @ ''-'' @
        str_int (int (count_list (map py_key (bs @ cs)) (py_key c)))])"
    using keys_for_snoc [of "bs @ cs" c] by simp
  then show ?case by (rule exI)
qed

lemma not_distinct_keys_for_append:
  assumes "\<not> distinct (keys_for bs)"
  shows "\<not> distinct (keys_for (bs @ cs))"
proof -
  obtain ks where "keys_for (bs @ cs) = keys_for bs @ ks" using keys_for_append ..
  then show ?thesis using assms by simp
qed

lemma count_take_less:
  assumes "j < length bs"
  shows "count_list (take j bs) (bs ! j) < count_list bs (bs ! j)"
proof -
  have "bs = take j bs @ bs ! j # drop (Suc j) bs"
    using assms by (rule id_take_nth_drop)
  then have "count_list bs (bs ! j) = count_list (take j bs @ bs ! j # drop (Suc j) bs) (bs ! j)"
    by simp
  then show ?thesis by simp
qed

text \<open>
  A derived key is new unless an earlier base identifier is rendered like this one and is
  another dictionary key.
\<close>

lemma key_fresh:
  assumes "\<forall>b'\<in>set bs. py_str b' = py_str b \<longrightarrow> py_key b' = py_key b"
  shows "py_str b @ ''-'' @ str_int (int (count_list (map py_key bs) (py_key b))) \<notin>
         set (keys_for bs)"
proof
  assume "py_str b @ ''-'' @ str_int (int (count_list (map py_key bs) (py_key b))) \<in>
          set (keys_for bs)"
  then obtain j where j: "j < length bs"
    and e: "py_str b @ ''-'' @ str_int (int (count_list (map py_key bs) (py_key b))) =
            key_at bs j"
    by (auto simp add: keys_for_def)
  from e have "py_str b = py_str (bs ! j) \<and>
      count_list (map py_key bs) (py_key b) =
      count_list (map py_key (take j bs)) (py_key (bs ! j))"
    unfolding key_at_def by (rule key_inj)
  then have s: "py_str (bs ! j) = py_str b"
    and c: "count_list (map py_key bs) (py_key b) =
            count_list (map py_key (take j bs)) (py_key (bs ! j))"
    by simp_all
  have "bs ! j \<in> set bs" using j by simp
  with assms s have k: "py_key (bs ! j) = py_key b" by blast
  have "count_list (take j (map py_key bs)) (map py_key bs ! j) <
        count_list (map py_key bs) (map py_key bs ! j)"
    using j by (intro count_take_less) simp
  then have "count_list (map py_key (take j bs)) (py_key (bs ! j)) <
             count_list (map py_key bs) (py_key (bs ! j))"
    using j by (simp add: take_map)
  with c k show False by simp
qed

lemma distinct_keys_for:
  assumes "\<forall>b\<in>set bs. \<forall>b'\<in>set bs. py_str b = py_str b' \<longrightarrow> py_key b = py_key b'"
  shows "distinct (keys_for bs)"
  using assms
proof (induction bs rule: rev_induct)
  case Nil
  show ?case by (simp add: keys_for_def)
next
  case (snoc b bs)
  have "\<forall>b'\<in>set bs. py_str b' = py_str b \<longrightarrow> py_key b' = py_key b"
  proof (intro ballI impI)
    fix b' assume "b' \<in> set bs" and "py_str b' = py_str b"
    then show "py_key b' = py_key b" using snoc.prems [rule_format, of b' b] by simp
  qed
  then have fresh: "py_str b @ ''-'' @ str_int (int (count_list (map py_key bs) (py_key b))) \<notin>
      set (keys_for bs)"
    by (rule key_fresh)
  have "\<forall>x\<in>set bs. \<forall>y\<in>set bs. py_str x = py_str y \<longrightarrow> py_key x = py_key y"
  proof (intro ballI impI)
    fix x y assume "x \<in> set bs" and "y \<in> set bs" and "py_str x = py_str y"
    then show "py_key x = py_key y" using snoc.prems [rule_format, of x y] by simp
  qed
  then have "distinct (keys_for bs)" by (rule snoc.IH)
  with fresh show ?case by (simp add: keys_for_snoc)
qed


lemma strings_render_apart:
  assumes "b = JStr s" and "b' = JStr s'" and "py_str b = py_str b'"
  shows "py_key b = py_key b'"
  using assms by simp

lemma map_of_dict_set: "map_of (dict_set d k v) = (map_of d)(k \<mapsto> v)"
  by (induction d k v rule: dict_set.induct) auto

lemma dict_set_fresh: "k \<notin> set (map fst d) \<Longrightarrow> dict_set d k v = d @ [(k, v)]"
  by (induction d k v rule: dict_set.induct) auto

lemma counter_get_dict_set:
  "counter_get (dict_set c k v) k' = (if k' = k then v else counter_get c k')"
  by (simp add: counter_get_def map_of_dict_set)

text \<open>
  The invariant of the two loops: after the molecules of base identifiers \<open>bs\<close> both
  maps have the keys \<open>keys_for bs\<close>, which are distinct, and the counter has counted
  every dictionary key. The assertion of line 53 is raised exactly when the key derived
  next is already there, that is, when the keys derived so far stop being distinct.
\<close>

lemma conformer_loop_inv:
  assumes "map fst md = keys_for bs" and "map fst ma = keys_for bs"
    and "\<forall>k. counter_get cnt k = int (count_list (map py_key bs) k)"
    and "distinct (keys_for bs)"
  shows "case conformer_loop fd b ids ms md ma cnt of
           Inl e \<Rightarrow> (\<exists>msg. e = OtherError msg) \<or>
                    ((\<exists>msg. e = AssertionError msg) \<and>
                     \<not> distinct (keys_for (bs @ replicate (length ms) b)))
         | Inr (md', ma', cnt') \<Rightarrow>
             map fst md' = keys_for (bs @ replicate (length ms) b) \<and>
             map fst ma' = keys_for (bs @ replicate (length ms) b) \<and>
             (\<forall>k. counter_get cnt' k =
                int (count_list (map py_key (bs @ replicate (length ms) b)) k)) \<and>
             distinct (keys_for (bs @ replicate (length ms) b)) \<and>
             map (Inr \<circ> snd) md' = map (Inr \<circ> snd) md @ map fd ms \<and>
             map snd ma' = map snd ma @ replicate (length ms) ids"
  using assms
proof (induction ms arbitrary: bs md ma cnt)
  case Nil
  then show ?case by simp
next
  case (Cons m ms)
  have app: "(bs @ [b]) @ replicate (length ms) b = bs @ replicate (length (m # ms)) b"
    by simp
  show ?case
  proof (cases "fd m")
    case (Inl msg)
    then show ?thesis by simp
  next
    case (Inr mol)
    let ?k = "py_str b @ ''-'' @ str_int (int (count_list (map py_key bs) (py_key b)))"
    let ?md = "md @ [(?k, mol)]"
    let ?ma = "ma @ [(?k, ids)]"
    let ?cnt = "dict_set cnt (py_key b) (int (count_list (map py_key bs) (py_key b)) + 1)"
    have cb: "counter_get cnt (py_key b) = int (count_list (map py_key bs) (py_key b))"
      using Cons.prems(3) by simp
    show ?thesis
    proof (cases "?k \<in> set (keys_for bs)")
      case True
      then have res: "conformer_loop fd b ids (m # ms) md ma cnt =
          Inl (AssertionError ''Multiple molecules have the same index'')"
        using Inr cb Cons.prems(1) by (simp add: Let_def dict_contains_def del: map_map)
      have "\<not> distinct (keys_for (bs @ [b]))" using True by (simp add: keys_for_snoc)
      then have "\<not> distinct (keys_for ((bs @ [b]) @ replicate (length ms) b))"
        by (rule not_distinct_keys_for_append)
      then have "\<not> distinct (keys_for (bs @ replicate (length (m # ms)) b))"
        unfolding app .
      then show ?thesis unfolding res by simp
    next
      case False
      have fresh_md: "?k \<notin> set (map fst md)" using False Cons.prems(1) by simp
      have fresh_ma: "?k \<notin> set (map fst ma)" using False Cons.prems(2) by simp
      have step: "conformer_loop fd b ids (m # ms) md ma cnt =
          conformer_loop fd b ids ms ?md ?ma ?cnt"
        using Inr cb fresh_md fresh_ma
        by (simp add: Let_def dict_contains_def dict_set_fresh del: map_map)
      have 1: "map fst ?md = keys_for (bs @ [b])" using Cons.prems(1) by (simp add: keys_for_snoc)
      have 2: "map fst ?ma = keys_for (bs @ [b])" using Cons.prems(2) by (simp add: keys_for_snoc)
      have 3: "\<forall>k. counter_get ?cnt k = int (count_list (map py_key (bs @ [b])) k)"
        using Cons.prems(3) by (simp add: counter_get_dict_set)
      have 4: "distinct (keys_for (bs @ [b]))"
        using False Cons.prems(4) by (simp add: keys_for_snoc)
      have ih: "case conformer_loop fd b ids ms ?md ?ma ?cnt of
           Inl e \<Rightarrow> (\<exists>msg. e = OtherError msg) \<or>
                    ((\<exists>msg. e = AssertionError msg) \<and>
                     \<not> distinct (keys_for ((bs @ [b]) @ replicate (length ms) b)))
         | Inr (md', ma', cnt') \<Rightarrow>
             map fst md' = keys_for ((bs @ [b]) @ replicate (length ms) b) \<and>
             map fst ma' = keys_for ((bs @ [b]) @ replicate (length ms) b) \<and>
             (\<forall>k. counter_get cnt' k =
                int (count_list (map py_key ((bs @ [b]) @ replicate (length ms) b)) k)) \<and>
             distinct (keys_for ((bs @ [b]) @ replicate (length ms) b)) \<and>
             map (Inr \<circ> snd) md' = map (Inr \<circ> snd) ?md @ map fd ms \<and>
             map snd ma' = map snd ?ma @ replicate (length ms) ids"
        by (rule Cons.IH [OF 1 2 3 4])
      show ?thesis unfolding step using ih Inr unfolding app
        by (auto simp add: comp_def split: sum.splits)
    qed
  qed
qed

lemma mdata_loop_inv:
  assumes "map fst md = keys_for bs" and "map fst ma = keys_for bs"
    and "\<forall>k. counter_get cnt k = int (count_list (map py_key bs) k)"
    and "distinct (keys_for bs)"
  shows "case mdata_loop fd recs md ma cnt of
           Inl e \<Rightarrow> (\<exists>msg. e = OtherError msg) \<or> e = KeyError ''canonical_isomeric_smiles'' \<or>
                    ((\<exists>msg. e = AssertionError msg) \<and> \<not> distinct (keys_for (bs @ bases recs)))
         | Inr (md', ma', cnt') \<Rightarrow>
             map fst md' = keys_for (bs @ bases recs) \<and>
             map fst ma' = keys_for (bs @ bases recs) \<and>
             distinct (keys_for (bs @ bases recs)) \<and>
             map (Inr \<circ> snd) md' = map (Inr \<circ> snd) md @ map fd (concat (map initial_molecules recs)) \<and>
             map snd ma' = map snd ma @ attrs_seq recs"
  using assms
proof (induction recs arbitrary: bs md ma cnt)
  case Nil
  then show ?case by (simp add: bases_def attrs_seq_def)
next
  case (Cons r recs)
  let ?ids = "cmiles_identifiers r"
  show ?case
  proof (cases "map_of ?ids ''canonical_isomeric_smiles''")
    case None
    then show ?thesis by simp
  next
    case (Some b)
    let ?bs = "bs @ replicate (length (initial_molecules r)) b"
    have bases: "bases (r # recs) = replicate (length (initial_molecules r)) b @ bases recs"
      using Some by (simp add: bases_def dict_get_def)
    have app: "?bs @ bases recs = bs @ bases (r # recs)" by (simp add: bases)
    have attrs: "attrs_seq (r # recs) = replicate (length (initial_molecules r)) ?ids @ attrs_seq recs"
      by (simp add: attrs_seq_def)
    note inner = conformer_loop_inv [OF Cons.prems, where fd = fd and b = b and ids = "?ids"
        and ms = "initial_molecules r"]
    show ?thesis
    proof (cases "conformer_loop fd b ?ids (initial_molecules r) md ma cnt")
      case (Inl e)
      have res: "mdata_loop fd (r # recs) md ma cnt = Inl e" using Some Inl by simp
      from inner Inl have "(\<exists>msg. e = OtherError msg) \<or>
          ((\<exists>msg. e = AssertionError msg) \<and> \<not> distinct (keys_for ?bs))"
        by simp
      then show ?thesis
      proof
        assume "\<exists>msg. e = OtherError msg"
        then show ?thesis unfolding res by simp
      next
        assume a: "(\<exists>msg. e = AssertionError msg) \<and> \<not> distinct (keys_for ?bs)"
        then have "\<not> distinct (keys_for ?bs)" by simp
        then have "\<not> distinct (keys_for (?bs @ bases recs))"
          by (rule not_distinct_keys_for_append)
        then have "\<not> distinct (keys_for (bs @ bases (r # recs)))" unfolding app .
        with a show ?thesis unfolding res by simp
      qed
    next
      case (Inr t)
      obtain md1 ma1 cnt1 where t: "t = (md1, ma1, cnt1)" by (cases t) auto
      have 1: "map fst md1 = keys_for ?bs" and 2: "map fst ma1 = keys_for ?bs"
        and 3: "\<forall>k. counter_get cnt1 k = int (count_list (map py_key ?bs) k)"
        and 4: "distinct (keys_for ?bs)"
        and 5: "map (Inr \<circ> snd) md1 = map (Inr \<circ> snd) md @ map fd (initial_molecules r)"
        and 6: "map snd ma1 = map snd ma @ replicate (length (initial_molecules r)) ?ids"
        using inner Inr t by simp_all
      have step: "mdata_loop fd (r # recs) md ma cnt = mdata_loop fd recs md1 ma1 cnt1"
        using Some Inr t by simp
      show ?thesis unfolding step using Cons.IH [OF 1 2 3 4] 5 6 unfolding app
        by (auto simp add: attrs comp_def split: sum.splits)
    qed
  qed
qed

lemma mdata_loop_start:
  "map fst ([] :: (string \<times> 'mol) list) = keys_for []"
  "map fst ([] :: (string \<times> attrs) list) = keys_for []"
  "\<forall>k. counter_get [] k = int (count_list (map py_key []) k)"
  "distinct (keys_for [])"
  by (simp_all add: keys_for_def counter_get_def)

lemma read_molecules_Inr:
  fixes from_data :: "'raw \<Rightarrow> string + 'mol"
  assumes "read_molecules files json_load from_data input_json = Inr (md, ma)"
  obtains recs where "open_json files json_load input_json = Inr recs"
    and "map fst md = keys_for (bases recs)" and "map fst ma = keys_for (bases recs)"
    and "distinct (keys_for (bases recs))"
    and "map (Inr \<circ> snd) md = map from_data (concat (map initial_molecules recs))"
    and "map snd ma = attrs_seq recs"
proof -
  from assms obtain recs where o: "open_json files json_load input_json = Inr recs"
    by (auto simp add: read_molecules_def split: sum.splits)
  from mdata_loop_inv [OF mdata_loop_start, where fd = from_data and recs = recs] assms o
  have "map fst md = keys_for (bases recs) \<and> map fst ma = keys_for (bases recs) \<and>
        distinct (keys_for (bases recs)) \<and>
        map (Inr \<circ> snd) md = map from_data (concat (map initial_molecules recs)) \<and>
        map snd ma = attrs_seq recs"
    by (auto simp add: read_molecules_def split: sum.splits)
  with o that show thesis by blast
qed

lemma read_molecules_AssertionError:
  fixes from_data :: "'raw \<Rightarrow> string + 'mol"
  assumes "read_molecules files json_load from_data input_json = Inl (AssertionError msg)"
  obtains recs where "open_json files json_load input_json = Inr recs"
    and "\<not> distinct (keys_for (bases recs))"
proof (cases "open_json files json_load input_json")
  case (Inl e')
  then have "AssertionError msg = e'" using assms by (simp add: read_molecules_def)
  then have False using Inl
    by (auto simp add: open_json_def split: option.splits stored.splits sum.splits)
  then show ?thesis ..
next
  case (Inr recs)
  from mdata_loop_inv [OF mdata_loop_start, where fd = from_data and recs = recs] assms Inr
  have "\<not> distinct (keys_for (bases recs))"
    by (auto simp add: read_molecules_def split: sum.splits)
  with Inr that show ?thesis by blast
qed

subsection \<open>The keys of one base identifier\<close>






lemma example_open: "open_json example_files example_json_load ''input.json'' = Inr example_recs"
  by (simp add: open_json_def example_files_def example_json_load_def)

lemma example_loop:
  "mdata_loop (\<lambda>m. Inr (m + k)) example_recs [] [] [] =
     Inr ([(''CCO-0'', 1 + k), (''CCO-1'', 2 + k), (''C-0'', 3 + k), (''CCO-2'', 4 + k)],
          example_molecule_attributes,
          [(JStr ''CCO'', 3), (JStr ''C'', 1)])"
  by (simp add: example_recs_def example_molecule_attributes_def counter_get_def
      dict_contains_def str_int_def str_nat.simps digit_char_def Let_def)

lemma example_run:
  "read_molecules example_files example_json_load Inr ''input.json'' =
     Inr (example_molecules_dict, example_molecule_attributes)"
  using example_loop [of 0]
  by (simp add: read_molecules_def example_open example_molecules_dict_def)

lemma example_bases: "bases example_recs = [JStr ''CCO'', JStr ''CCO'', JStr ''C'', JStr ''CCO'']"
  by (simp add: bases_def example_recs_def dict_get_def)

lemma example_mixed_open:
  "open_json example_files example_mixed_json_load ''input.json'' = Inr example_mixed_recs"
  by (simp add: open_json_def example_files_def example_mixed_json_load_def)




section \<open>Properties of \<open>read_molecules\<close>\<close>

lemma example_run_shifted:
  "read_molecules example_files example_json_load (\<lambda>m. Inr (m + 10)) ''input.json'' =
     Inr (example_molecules_dict_shifted, example_molecule_attributes)"
  using example_loop [of 10]
  by (simp add: read_molecules_def example_open example_molecules_dict_shifted_def)



text \<open>
  Claim C7. When \<open>read_molecules\<close> returns, the molecule map and the attributes map have
  the same keys, and in the same order.
\<close>

theorem read_molecules_same_keys:
  fixes from_data :: "'raw \<Rightarrow> string + 'mol"
  assumes "read_molecules files json_load from_data input_json = Inr (md, ma)"
  shows "set (map fst md) = set (map fst ma) \<and> map fst md = map fst ma"
proof -
  from assms obtain recs :: "'raw mdata list" where "map fst md = keys_for (bases recs)"
    and "map fst ma = keys_for (bases recs)"
    by (rule read_molecules_Inr)
  then show ?thesis by simp
qed

theorem read_molecules_same_keys_witness:
  "read_molecules example_files example_json_load Inr ''input.json'' =
     Inr (example_molecules_dict, example_molecule_attributes) \<and>
   set (map fst example_molecules_dict) = set (map fst example_molecule_attributes) \<and>
   map fst example_molecule_attributes = [''CCO-0'', ''CCO-1'', ''C-0'', ''CCO-2'']"
  using read_molecules_same_keys [OF example_run] example_run
  by (simp add: example_molecules_dict_def)

text \<open>
  Claim C8. Two runs of \<open>read_molecules\<close> on the same file that both return assign the
  same keys and build the same attributes map. The two runs may even differ in what the
  toolkit's \<open>Molecule.from_data\<close> returns: the counter is local to the call, and a key
  depends on the base identifiers read so far and on nothing else.
\<close>

theorem read_molecules_deterministic:
  fixes from_data1 :: "'raw \<Rightarrow> string + 'mol1" and from_data2 :: "'raw \<Rightarrow> string + 'mol2"
  assumes "read_molecules files json_load from_data1 input_json = Inr (md1, ma1)"
    and "read_molecules files json_load from_data2 input_json = Inr (md2, ma2)"
  shows "map fst md1 = map fst md2 \<and> ma1 = ma2"
proof -
  from assms(1) obtain recs1 where o1: "open_json files json_load input_json = Inr recs1"
    and k1: "map fst md1 = keys_for (bases recs1)" and a1: "map fst ma1 = keys_for (bases recs1)"
    and s1: "map snd ma1 = attrs_seq recs1"
    by (rule read_molecules_Inr)
  from assms(2) obtain recs2 where o2: "open_json files json_load input_json = Inr recs2"
    and k2: "map fst md2 = keys_for (bases recs2)" and a2: "map fst ma2 = keys_for (bases recs2)"
    and s2: "map snd ma2 = attrs_seq recs2"
    by (rule read_molecules_Inr)
  from o1 o2 have r: "recs2 = recs1" by simp
  have "ma1 = zip (map fst ma1) (map snd ma1)" by (simp add: zip_map_fst_snd)
  also have "\<dots> = zip (map fst ma2) (map snd ma2)" by (simp only: a1 a2 s1 s2 r)
  also have "\<dots> = ma2" by (simp add: zip_map_fst_snd)
  finally show ?thesis using k1 k2 r by simp
qed

theorem read_molecules_deterministic_witness:
  "read_molecules example_files example_json_load Inr ''input.json'' =
     Inr (example_molecules_dict, example_molecule_attributes) \<and>
   read_molecules example_files example_json_load (\<lambda>m. Inr (m + 10)) ''input.json'' =
     Inr (example_molecules_dict_shifted, example_molecule_attributes) \<and>
   map fst example_molecules_dict = map fst example_molecules_dict_shifted"
  using read_molecules_deterministic [OF example_run example_run_shifted]
    example_run example_run_shifted
  by simp

text \<open>
  Claim C10, as amended. The keys of the molecule map that \<open>read_molecules\<close> returns are
  pairwise distinct, whatever the file holds. The assertion of line 53 is never raised
  when no two base identifiers of the file that are different dictionary keys are
  rendered alike by the f-string; in particular it is never raised when every base
  identifier is a string. The reason is \<open>key_inj\<close>: the decimal rendering of a counter has
  no dash, so a key splits at its last dash into the rendering of its base identifier and
  its counter. Without the condition the assertion can be raised: the counter tells the
  number \<open>1\<close> from the string \<open>"1"\<close>, the f-string renders both as \<open>1\<close>.
\<close>

theorem read_molecules_assertion_unreachable:
  fixes from_data :: "'raw \<Rightarrow> string + 'mol"
  shows "((\<forall>recs. open_json files json_load input_json = Inr recs \<longrightarrow>
            (\<forall>b\<in>set (bases recs). \<forall>b'\<in>set (bases recs).
               py_str b = py_str b' \<longrightarrow> py_key b = py_key b')) \<longrightarrow>
          (\<forall>msg. read_molecules files json_load from_data input_json \<noteq>
                   Inl (AssertionError msg))) \<and>
         ((\<forall>recs. open_json files json_load input_json = Inr recs \<longrightarrow>
            (\<forall>b\<in>set (bases recs). \<exists>s. b = JStr s)) \<longrightarrow>
          (\<forall>msg. read_molecules files json_load from_data input_json \<noteq>
                   Inl (AssertionError msg))) \<and>
         (\<forall>md ma. read_molecules files json_load from_data input_json = Inr (md, ma) \<longrightarrow>
            distinct (map fst md))"
proof -
  have general: "read_molecules files json_load from_data input_json \<noteq> Inl (AssertionError msg)"
    if h: "\<forall>recs. open_json files json_load input_json = Inr recs \<longrightarrow>
            (\<forall>b\<in>set (bases recs). \<forall>b'\<in>set (bases recs).
               py_str b = py_str b' \<longrightarrow> py_key b = py_key b')" for msg
  proof
    assume "read_molecules files json_load from_data input_json = Inl (AssertionError msg)"
    then obtain recs :: "'raw mdata list"
      where o: "open_json files json_load input_json = Inr recs"
        and nd: "\<not> distinct (keys_for (bases recs))"
      by (rule read_molecules_AssertionError)
    from h [THEN spec, THEN mp, OF o]
    have "distinct (keys_for (bases recs))" by (rule distinct_keys_for)
    with nd show False ..
  qed
  have strings: "read_molecules files json_load from_data input_json \<noteq> Inl (AssertionError msg)"
    if h: "\<forall>recs. open_json files json_load input_json = Inr recs \<longrightarrow>
            (\<forall>b\<in>set (bases recs). \<exists>s. b = JStr s)" for msg
  proof (rule general, intro allI impI ballI)
    fix recs b b'
    assume o: "open_json files json_load input_json = Inr recs"
      and b: "b \<in> set (bases recs)" and b': "b' \<in> set (bases recs)"
      and e: "py_str b = py_str b'"
    note all = h [THEN spec, THEN mp, OF o]
    from bspec [OF all b] obtain s where s: "b = JStr s" ..
    from bspec [OF all b'] obtain s' where s': "b' = JStr s'" ..
    from s s' e show "py_key b = py_key b'" by (rule strings_render_apart)
  qed
  have keys: "distinct (map fst md)"
    if "read_molecules files json_load from_data input_json = Inr (md, ma)" for md ma
  proof -
    from that obtain recs :: "'raw mdata list" where "map fst md = keys_for (bases recs)"
      and "distinct (keys_for (bases recs))"
      by (rule read_molecules_Inr)
    then show ?thesis by simp
  qed
  show ?thesis
  proof (intro conjI allI impI)
    fix msg
    assume "\<forall>recs. open_json files json_load input_json = Inr recs \<longrightarrow>
            (\<forall>b\<in>set (bases recs). \<forall>b'\<in>set (bases recs).
               py_str b = py_str b' \<longrightarrow> py_key b = py_key b')"
    then show "read_molecules files json_load from_data input_json \<noteq> Inl (AssertionError msg)"
      by (rule general)
  next
    fix msg
    assume "\<forall>recs. open_json files json_load input_json = Inr recs \<longrightarrow>
            (\<forall>b\<in>set (bases recs). \<exists>s. b = JStr s)"
    then show "read_molecules files json_load from_data input_json \<noteq> Inl (AssertionError msg)"
      by (rule strings)
  next
    fix md ma
    assume "read_molecules files json_load from_data input_json = Inr (md, ma)"
    then show "distinct (map fst md)" by (rule keys)
  qed
qed

theorem read_molecules_assertion_unreachable_witness:
  "open_json example_files example_json_load ''input.json'' = Inr example_recs \<and>
   bases example_recs = [JStr ''CCO'', JStr ''CCO'', JStr ''C'', JStr ''CCO''] \<and>
   read_molecules example_files example_json_load Inr ''input.json'' =
     Inr (example_molecules_dict, example_molecule_attributes) \<and>
   distinct (map fst example_molecules_dict) \<and>
   read_molecules example_files example_json_load (Inr :: nat \<Rightarrow> string + nat)
     ''input.json'' \<noteq> Inl (AssertionError ''Multiple molecules have the same index'') \<and>
   read_molecules example_files example_json_load example_shift ''input.json'' \<noteq>
     Inl (AssertionError ''Multiple molecules have the same index'')"
proof -
  note t = read_molecules_assertion_unreachable
    [of example_files example_json_load "''input.json''"]
  have strs: "\<forall>recs. open_json example_files example_json_load ''input.json'' = Inr recs \<longrightarrow>
      (\<forall>b\<in>set (bases recs). \<exists>s. b = JStr s)"
    by (auto simp add: example_open example_bases)
  from t [of example_shift] strs
  have a: "read_molecules example_files example_json_load example_shift ''input.json'' \<noteq>
      Inl (AssertionError ''Multiple molecules have the same index'')"
    by (elim conjE) simp
  have apart: "\<forall>recs. open_json example_files example_json_load ''input.json'' = Inr recs \<longrightarrow>
      (\<forall>b\<in>set (bases recs). \<forall>b'\<in>set (bases recs).
         py_str b = py_str b' \<longrightarrow> py_key b = py_key b')"
    by (auto simp add: example_open example_bases)
  note u = t [of "Inr :: nat \<Rightarrow> string + nat"]
  from u [THEN conjunct1, THEN mp, OF apart]
  have c: "read_molecules example_files example_json_load (Inr :: nat \<Rightarrow> string + nat)
      ''input.json'' \<noteq> Inl (AssertionError ''Multiple molecules have the same index'')"
    by (rule spec)
  from u [THEN conjunct2, THEN conjunct2] example_run
  have b: "distinct (map fst example_molecules_dict)"
    by simp
  from a b c example_open example_bases example_run show ?thesis by (intro conjI)
qed

text \<open>
  The file of the counterexample holds two records with one molecule each, the first
  with the number \<open>1\<close> as its \<open>canonical_isomeric_smiles\<close>, the second with the string
  \<open>"1"\<close>. Both derive the key \<open>1-0\<close>, and the second iteration raises the assertion error.
\<close>

theorem read_molecules_assertion_counterexample:
  "read_molecules example_files example_mixed_json_load (Inr :: nat \<Rightarrow> string + nat)
     ''input.json'' =
   Inl (AssertionError ''Multiple molecules have the same index'')"
  by (simp add: read_molecules_def example_mixed_open example_mixed_recs_def counter_get_def
      dict_contains_def str_int_def str_nat.simps digit_char_def Let_def)

section \<open>The loops of the two submitters\<close>

subsection \<open>One iteration of the torsion loop\<close>

lemma entry_step_empty:
  "td_initial_molecules (snd item) = [] \<Longrightarrow>
   entry_step Molecule g a item i calls = (Some IndexError, i, calls)"
  by (simp add: entry_step_def)

lemma entry_step_invalid:
  "td_initial_molecules (snd item) = first # others \<Longrightarrow> Molecule first = Inl msg \<Longrightarrow>
   entry_step Molecule g a item i calls = (Some (OtherError msg), i, calls)"
  by (simp add: entry_step_def)

lemma entry_step_disconnected:
  "td_initial_molecules (snd item) = first # others \<Longrightarrow> Molecule first = Inr molecule \<Longrightarrow>
   length (g (symbols molecule) (geometry molecule)) + 3 \<le> length (symbols molecule) \<Longrightarrow>
   entry_step Molecule g a item i calls = (Some (AssertionError ''conn''), i, calls)"
  by (simp add: entry_step_def Let_def)

lemma entry_step_checked:
  assumes "td_initial_molecules (snd item) = first # others" and "Molecule first = Inr molecule"
    and "length (symbols molecule) < length (g (symbols molecule) (geometry molecule)) + 3"
  shows "entry_step Molecule g a item i calls =
     (case a calls (torsion_call_of item) of
        None \<Rightarrow>
          if (i + 1) mod 30 = 0
          then (None, i + 1, calls @ [AddEntry (torsion_call_of item) None, Save])
          else (None, i + 1, calls @ [AddEntry (torsion_call_of item) None])
      | Some e \<Rightarrow>
          if is_KeyError e then (None, i, calls @ [AddEntry (torsion_call_of item) (Some e)])
          else (Some e, i, calls @ [AddEntry (torsion_call_of item) (Some e)]))"
proof (cases "a calls (torsion_call_of item)")
  case None
  then have "a calls \<lparr>call_index = fst item,
      call_initial_molecules = first # others,
      call_atom_indices = td_atom_indices (snd item),
      call_grid_spacings = replicate (length (td_atom_indices (snd item))) 15,
      call_attributes = td_attributes (snd item)\<rparr> = None"
    using assms(1) by (simp add: torsion_call_of_def)
  then show ?thesis using assms None
    by (simp add: entry_step_def Let_def torsion_call_of_def)
next
  case (Some e)
  then have "a calls \<lparr>call_index = fst item,
      call_initial_molecules = first # others,
      call_atom_indices = td_atom_indices (snd item),
      call_grid_spacings = replicate (length (td_atom_indices (snd item))) 15,
      call_attributes = td_attributes (snd item)\<rparr> = Some e"
    using assms(1) by (simp add: torsion_call_of_def)
  then show ?thesis using assms Some
    by (simp add: entry_step_def Let_def torsion_call_of_def)
qed

lemma entry_step_shape:
  assumes "entry_step Molecule g a item i calls = (r, i', calls')"
  shows "(calls' = calls \<and> i' = i \<and> r \<noteq> None) \<or>
         (\<exists>e. calls' = calls @ [AddEntry (torsion_call_of item) (Some e)] \<and> i' = i \<and>
              a calls (torsion_call_of item) = Some e \<and>
              r = (if is_KeyError e then None else Some e)) \<or>
         (calls' = calls @ [AddEntry (torsion_call_of item) None] \<and> i' = i + 1 \<and>
              i' mod 30 \<noteq> 0 \<and> r = None) \<or>
         (calls' = calls @ [AddEntry (torsion_call_of item) None, Save] \<and> i' = i + 1 \<and>
              i' mod 30 = 0 \<and> r = None)"
proof (cases "td_initial_molecules (snd item)")
  case Nil
  have "calls' = calls \<and> i' = i \<and> r \<noteq> None"
    using assms unfolding entry_step_empty [OF Nil] by auto
  then show ?thesis by (rule disjI1)
next
  case (Cons first others)
  show ?thesis
  proof (cases "Molecule first")
    case (Inl msg)
    have "calls' = calls \<and> i' = i \<and> r \<noteq> None"
      using assms unfolding entry_step_invalid [where Molecule = Molecule, OF Cons Inl] by auto
    then show ?thesis by (rule disjI1)
  next
    case (Inr molecule)
    show ?thesis
    proof (cases "length (symbols molecule) < length (g (symbols molecule) (geometry molecule)) + 3")
      case False
      then have le: "length (g (symbols molecule) (geometry molecule)) + 3 \<le> length (symbols molecule)"
        by simp
      have "calls' = calls \<and> i' = i \<and> r \<noteq> None"
        using assms unfolding entry_step_disconnected [where Molecule = Molecule and g = g, OF Cons Inr le] by auto
      then show ?thesis by (rule disjI1)
    next
      case True
      note step = entry_step_checked [of item first others Molecule molecule g a i calls,
          OF Cons Inr True]
      show ?thesis
      proof (cases "a calls (torsion_call_of item)")
        case None
        show ?thesis
        proof (cases "(i + 1) mod 30 = 0")
          case True
          have "calls' = calls @ [AddEntry (torsion_call_of item) None, Save] \<and> i' = i + 1 \<and>
              i' mod 30 = 0 \<and> r = None"
            using assms True unfolding step None by simp
          then show ?thesis by (intro disjI2)
        next
          case False
          have "calls' = calls @ [AddEntry (torsion_call_of item) None] \<and> i' = i + 1 \<and>
              i' mod 30 \<noteq> 0 \<and> r = None"
            using assms False unfolding step None by simp
          then show ?thesis by (intro disjI2 disjI1)
        qed
      next
        case (Some e)
        have "calls' = calls @ [AddEntry (torsion_call_of item) (Some e)] \<and> i' = i \<and>
              a calls (torsion_call_of item) = Some e \<and>
              r = (if is_KeyError e then None else Some e)"
          using assms Some unfolding step by (cases "is_KeyError e") auto
        then have "\<exists>e. calls' = calls @ [AddEntry (torsion_call_of item) (Some e)] \<and> i' = i \<and>
              a calls (torsion_call_of item) = Some e \<and>
              r = (if is_KeyError e then None else Some e)" by (rule exI)
        then show ?thesis by (intro disjI2 disjI1)
      qed
    qed
  qed
qed


lemma added_count_append [simp]: "added_count (xs @ ys) = added_count xs + added_count ys"
  by (simp add: added_count_def)

lemma save_count_append [simp]: "save_count (xs @ ys) = save_count xs + save_count ys"
  by (simp add: save_count_def)

lemma added_count_simps [simp]:
  "added_count [] = 0"
  "added_count (AddEntry c None # xs) = Suc (added_count xs)"
  "added_count (AddEntry c (Some e) # xs) = added_count xs"
  "added_count (Save # xs) = added_count xs"
  "added_count (NewDataset cfg n # xs) = added_count xs"
  "added_count (AddSpecification n m b # xs) = added_count xs"
  "added_count (Compute n t # xs) = added_count xs"
  by (simp_all add: added_count_def)

lemma save_count_simps [simp]:
  "save_count [] = 0"
  "save_count (AddEntry c out # xs) = save_count xs"
  "save_count (Save # xs) = Suc (save_count xs)"
  "save_count (NewDataset cfg n # xs) = save_count xs"
  "save_count (AddSpecification n m b # xs) = save_count xs"
  "save_count (Compute n t # xs) = save_count xs"
  by (simp_all add: save_count_def)

lemma saves_inv_fail:
  assumes "saves_inv i calls"
  shows "saves_inv i (calls @ [AddEntry c (Some e)])"
  using assms unfolding saves_inv_def
  by (auto simp add: nth_append less_Suc_eq)

lemma mod_30_next: "((int n + 1) mod 30 = 0) = (Suc n mod 30 = 0)"
proof -
  have "(int n + 1) mod 30 = int (Suc n mod 30)" by (simp add: zmod_int add.commute)
  then show ?thesis by simp
qed

lemma div_30_next: "nat ((int n + 1) div 30) = Suc n div 30"
proof -
  have "(int n + 1) div 30 = int (Suc n div 30)" by (simp add: zdiv_int add.commute)
  then show ?thesis by simp
qed

lemma div_30_nat: "nat (int n div 30) = n div 30"
proof -
  have "int n div 30 = int (n div 30)" by (simp add: zdiv_int)
  then show ?thesis by simp
qed

lemma saves_inv_add:
  assumes "saves_inv i calls" and "(i + 1) mod 30 \<noteq> 0"
  shows "saves_inv (i + 1) (calls @ [AddEntry c None])"
proof -
  from assms(1) have i: "i = int (added_count calls)" by (simp add: saves_inv_def)
  from assms(2) have n: "Suc (added_count calls) mod 30 \<noteq> 0"
    unfolding i by (simp add: mod_30_next)
  show ?thesis
    using assms n unfolding saves_inv_def i
    by (auto simp add: nth_append less_Suc_eq div_30_next div_30_nat div_Suc)
qed

lemma saves_inv_add_save:
  assumes "saves_inv i calls" and "(i + 1) mod 30 = 0"
  shows "saves_inv (i + 1) (calls @ [AddEntry c None, Save])"
proof -
  from assms(1) have i: "i = int (added_count calls)" by (simp add: saves_inv_def)
  from assms(2) have n: "Suc (added_count calls) mod 30 = 0"
    unfolding i by (simp add: mod_30_next)
  show ?thesis
    using assms n unfolding saves_inv_def i
    by (auto simp add: nth_append less_Suc_eq div_30_next div_30_nat div_Suc nth_Cons')
qed


lemma add_calls_append [simp]: "add_calls (xs @ ys) = add_calls xs @ add_calls ys"
  by (induction xs rule: add_calls.induct) simp_all


lemma entry_step_inv:
  assumes "saves_inv i calls" and "entry_step Molecule g a item i calls = (r, i', calls')"
  shows "saves_inv i' calls'"
  using entry_step_shape [OF assms(2)] assms(1)
  by (auto simp add: saves_inv_fail saves_inv_add saves_inv_add_save)

lemma entry_loop_inv:
  assumes "saves_inv i calls" and "entry_loop Molecule g a items i calls = (r, i', calls')"
  shows "saves_inv i' calls'"
  using assms
proof (induction items arbitrary: i calls)
  case Nil
  then show ?case by simp
next
  case (Cons item rest)
  obtain r1 i1 calls1 where step: "entry_step Molecule g a item i calls = (r1, i1, calls1)"
    by (cases "entry_step Molecule g a item i calls") auto
  have inv1: "saves_inv i1 calls1" using Cons.prems(1) step by (rule entry_step_inv)
  show ?case
  proof (cases r1)
    case None
    then have "entry_loop Molecule g a rest i1 calls1 = (r, i', calls')"
      using Cons.prems(2) by (simp add: step)
    with inv1 show ?thesis by (rule Cons.IH)
  next
    case (Some e)
    then have "i' = i1 \<and> calls' = calls1"
      using Cons.prems(2) by (simp add: step)
    with inv1 show ?thesis by simp
  qed
qed

lemma entry_step_calls:
  assumes "entry_step Molecule g a item i calls = (r, i', calls')"
  shows "(add_calls calls' = add_calls calls \<and> r \<noteq> None \<and> calls' = calls) \<or>
         (add_calls calls' = add_calls calls @ [torsion_call_of item] \<and>
          (\<exists>ext. calls' = calls @ ext))"
  using entry_step_shape [OF assms] by auto

lemma entry_loop_calls:
  assumes "entry_loop Molecule g a items i calls = (r, i', calls')"
  shows "\<exists>n ext. n \<le> length items \<and> calls' = calls @ ext \<and>
           add_calls ext = map torsion_call_of (take n items) \<and>
           (r = None \<longrightarrow> n = length items)"
  using assms
proof (induction items arbitrary: i calls)
  case Nil
  then show ?case by simp
next
  case (Cons item rest)
  obtain r1 i1 calls1 where step: "entry_step Molecule g a item i calls = (r1, i1, calls1)"
    by (cases "entry_step Molecule g a item i calls") auto
  note shape = entry_step_shape [OF step]
  show ?case
  proof (cases r1)
    case (Some e)
    then have res: "r = Some e" "calls' = calls1"
      using Cons.prems by (simp_all add: step)
    from shape Some have "calls1 = calls \<or> calls1 = calls @ [AddEntry (torsion_call_of item) (Some e)]"
      by (auto split: if_splits)
    then show ?thesis
    proof
      assume "calls1 = calls"
      then have "0 \<le> length (item # rest) \<and> calls' = calls @ [] \<and>
           add_calls [] = map torsion_call_of (take 0 (item # rest)) \<and>
           (r = None \<longrightarrow> 0 = length (item # rest))"
        using res by simp
      then show ?thesis by blast
    next
      assume "calls1 = calls @ [AddEntry (torsion_call_of item) (Some e)]"
      then have "1 \<le> length (item # rest) \<and>
           calls' = calls @ [AddEntry (torsion_call_of item) (Some e)] \<and>
           add_calls [AddEntry (torsion_call_of item) (Some e)] =
             map torsion_call_of (take 1 (item # rest)) \<and>
           (r = None \<longrightarrow> 1 = length (item # rest))"
        using res by simp
      then show ?thesis by blast
    qed
  next
    case None
    then have rest: "entry_loop Molecule g a rest i1 calls1 = (r, i', calls')"
      using Cons.prems by (simp add: step)
    from Cons.IH [OF rest] obtain n ext where n: "n \<le> length rest"
      and c: "calls' = calls1 @ ext" and a: "add_calls ext = map torsion_call_of (take n rest)"
      and f: "r = None \<longrightarrow> n = length rest" by blast
    from shape None obtain ext1 where c1: "calls1 = calls @ ext1"
      and a1: "add_calls ext1 = [torsion_call_of item]"
      by (auto split: if_splits)
    have "Suc n \<le> length (item # rest) \<and> calls' = calls @ (ext1 @ ext) \<and>
           add_calls (ext1 @ ext) = map torsion_call_of (take (Suc n) (item # rest)) \<and>
           (r = None \<longrightarrow> Suc n = length (item # rest))"
      using n c a f c1 a1 by simp
    then show ?thesis by blast
  qed
qed

lemma add_molecules_Cons:
  "add_molecules a ((k, m) # md) ma calls =
     (case a calls \<lparr>entry_index = k, entry_molecule = m, entry_attributes = dict_get ma k []\<rparr> of
        None \<Rightarrow> add_molecules a md ma
          (calls @ [AddEntry \<lparr>entry_index = k, entry_molecule = m,
                               entry_attributes = dict_get ma k []\<rparr> None])
      | Some e \<Rightarrow> (Some e, calls @ [AddEntry \<lparr>entry_index = k, entry_molecule = m,
                               entry_attributes = dict_get ma k []\<rparr> (Some e)]))"
  by (simp only: add_molecules.simps Let_def)

lemma add_molecules_save:
  "save_count (snd (add_molecules a md ma calls)) = save_count calls"
proof (induction md arbitrary: calls)
  case Nil
  show ?case by simp
next
  case (Cons p md)
  obtain k m where p: "p = (k, m)" by (cases p) auto
  show ?case unfolding p add_molecules_Cons
    by (cases "a calls \<lparr>entry_index = k, entry_molecule = m, entry_attributes = dict_get ma k []\<rparr>")
      (simp_all add: Cons.IH)
qed



lemma create_optimization_dataset_no_save:
  "save_count (snd (create_optimization_dataset a md client_config name qm_method qm_basis spec ma start)) = 0"
proof -
  define init :: "'a opt_call event list" where "init = [NewDataset (Some client_config) name, AddSpecification spec qm_method qm_basis]"
  obtain r calls where res: "add_molecules a md ma init = (r, calls)"
    by (cases "add_molecules a md ma init") auto
  have "save_count (snd (add_molecules a md ma init)) = save_count init"
    by (rule add_molecules_save)
  then have c: "save_count calls = 0" unfolding res by (simp add: init_def)
  have "create_optimization_dataset a md client_config name qm_method qm_basis spec ma start =
      (case r of Some e \<Rightarrow> (Some e, calls)
       | None \<Rightarrow> (None, if start then calls @ [Compute spec None] else calls))"
    unfolding create_optimization_dataset_def init_def [symmetric] res
    by (cases r) simp_all
  then show ?thesis using c by (cases r) simp_all
qed

lemma saves_inv_init:
  "saves_inv 0 [NewDataset client_config name, AddSpecification spec qm_method qm_basis]"
  unfolding saves_inv_def by (auto simp add: nth_Cons' less_Suc_eq numeral_2_eq_2)

lemma submit_torsions_finished:
  assumes "submit_torsions Molecule g a selected = (None, i, calls)"
  obtains body where
    "entry_loop Molecule g a selected 0
       [NewDataset None ''OpenFF Gen 2 Torsion Set 2 Coverage'', AddSpecification ''default'' ''B3LYP-d3bj'' ''dzvp''] =
     (None, i, body)"
    and "calls = body @ [Save, Compute ''default'' (Some ''openff'')]"
proof -
  let ?init = "[NewDataset None ''OpenFF Gen 2 Torsion Set 2 Coverage'', AddSpecification ''default'' ''B3LYP-d3bj'' ''dzvp'']"
  obtain r j body where loop: "entry_loop Molecule g a selected 0 ?init = (r, j, body)"
    by (cases "entry_loop Molecule g a selected 0 ?init") auto
  from assms have "r = None \<and> j = i \<and> calls = body @ [Save, Compute ''default'' (Some ''openff'')]"
    unfolding submit_torsions_def loop by (cases r) auto
  with loop that show thesis by blast
qed

section \<open>Properties of the submitters\<close>

lemma example_thirty_run:
  "fst (submit_torsions example_Molecule example_guess_connectivity example_accept_all
          example_thirty) = None \<and>
   fst (snd (submit_torsions example_Molecule example_guess_connectivity example_accept_all
          example_thirty)) = 30"
  by code_simp

text \<open>
  Claim C3, as amended. In the torsion script, a run whose loop finishes has counted in
  \<open>i\<close> exactly the additions that returned; it has saved the dataset \<open>i div 30\<close> times
  inside the loop and once more after it, just before \<open>compute\<close>. Inside the loop every
  save comes directly after an addition that returned and that brought the number of such
  additions to a positive multiple of 30, and every such addition is directly followed by a
  save. The optimization script never calls \<open>save\<close>: its \<open>add_entry\<close> calls leave the
  service's own default in force.
\<close>

theorem torsion_saves_every_30:
  "(submit_torsions Molecule g a selected = (None, i, calls) \<longrightarrow>
      i = int (added_count calls) \<and>
      save_count calls = nat (i div 30) + 1 \<and>
      (\<exists>body. calls = body @ [Save, Compute ''default'' (Some ''openff'')] \<and>
         (\<forall>k<length body. is_save (body ! k) \<longrightarrow>
            0 < k \<and> is_added (body ! (k - 1)) \<and>
            0 < added_count (take k body) \<and> added_count (take k body) mod 30 = 0) \<and>
         (\<forall>k<length body. is_added (body ! k) \<and> added_count (take (Suc k) body) mod 30 = 0 \<longrightarrow>
            Suc k < length body \<and> is_save (body ! Suc k)))) \<and>
   save_count (snd (create_optimization_dataset a' md client_config name qm_method qm_basis spec ma start)) = 0"
proof (intro conjI impI)
  assume run: "submit_torsions Molecule g a selected = (None, i, calls)"
  then obtain body where loop: "entry_loop Molecule g a selected 0
       [NewDataset None ''OpenFF Gen 2 Torsion Set 2 Coverage'', AddSpecification ''default'' ''B3LYP-d3bj'' ''dzvp''] =
     (None, i, body)"
    and calls: "calls = body @ [Save, Compute ''default'' (Some ''openff'')]"
    by (rule submit_torsions_finished)
  have inv: "saves_inv i body" using saves_inv_init loop by (rule entry_loop_inv)
  show "i = int (added_count calls)" using inv by (simp add: saves_inv_def calls)
  show "save_count calls = nat (i div 30) + 1" using inv by (simp add: saves_inv_def calls)
  show "\<exists>body. calls = body @ [Save, Compute ''default'' (Some ''openff'')] \<and>
         (\<forall>k<length body. is_save (body ! k) \<longrightarrow>
            0 < k \<and> is_added (body ! (k - 1)) \<and>
            0 < added_count (take k body) \<and> added_count (take k body) mod 30 = 0) \<and>
         (\<forall>k<length body. is_added (body ! k) \<and> added_count (take (Suc k) body) mod 30 = 0 \<longrightarrow>
            Suc k < length body \<and> is_save (body ! Suc k))"
    using inv calls unfolding saves_inv_def by blast
next
  show "save_count (snd (create_optimization_dataset a' md client_config name qm_method qm_basis spec ma start)) = 0"
    by (rule create_optimization_dataset_no_save)
qed

theorem torsion_saves_every_30_witness:
  "fst (submit_torsions example_Molecule example_guess_connectivity example_accept_all
          example_thirty) = None \<and>
   fst (snd (submit_torsions example_Molecule example_guess_connectivity example_accept_all
          example_thirty)) = 30 \<and>
   save_count (snd (snd (submit_torsions example_Molecule example_guess_connectivity
          example_accept_all example_thirty))) = 2"
proof -
  define run where "run = submit_torsions example_Molecule example_guess_connectivity
          example_accept_all example_thirty"
  have r: "fst run = None \<and> fst (snd run) = 30"
    unfolding run_def by (rule example_thirty_run)
  then have "run = (None, 30, snd (snd run))" by (metis prod.collapse)
  then have h: "submit_torsions example_Molecule example_guess_connectivity
          example_accept_all example_thirty = (None, 30, snd (snd run))"
    by (simp add: run_def)
  have "save_count (snd (snd run)) = nat (30 div 30) + 1"
    using torsion_saves_every_30 [of example_Molecule example_guess_connectivity
        example_accept_all example_thirty 30 "snd (snd run)"] h
    by blast
  then show ?thesis using r by (simp add: run_def)
qed

text \<open>
  The claim as stated fails on the optimization script: a run that adds four entries and
  finishes has made no \<open>save\<close> call, neither every 30 additions nor at the end.
\<close>

theorem optimization_run_saves_counterexample:
  "fst (create_optimization_dataset example_accept_all example_molecules_dict
          ''client.json'' ''example'' ''b3lyp-d3bj'' ''dzvp'' ''default'' example_molecule_attributes True) = None \<and>
   added_count (snd (create_optimization_dataset example_accept_all example_molecules_dict
          ''client.json'' ''example'' ''b3lyp-d3bj'' ''dzvp'' ''default'' example_molecule_attributes True)) = 4 \<and>
   save_count (snd (create_optimization_dataset example_accept_all example_molecules_dict
          ''client.json'' ''example'' ''b3lyp-d3bj'' ''dzvp'' ''default'' example_molecule_attributes True)) = 0"
  by code_simp

subsection \<open>Loading, duplicate keys, validation and grid spacings\<close>

text \<open>
  Claim C4: when the JSON file is missing, the loader is to decompress it from the archive
  beside it, so that opening and parsing it succeeds. The script calls
  \<open>TarFile.extractfile\<close>, which hands back a reader and writes no file, and drops the
  reader: with only the archive on disk, holding a member of the right name and a text the
  parser accepts, the loader raises \<open>FileNotFoundError\<close> at \<open>open\<close>.
\<close>

theorem load_selected_torsions_archive_only:
  "load_selected_torsions example_archive_only example_torsion_json_load =
     Inl (FileNotFoundError ''coverage_selected_torsions.json'')"
  by (simp add: load_selected_torsions_def example_archive_only_def tarfile_open_def
      extractfile_def read_selected_torsions_def open_json_def)

lemma load_selected_torsions_missing:
  "files ''coverage_selected_torsions.json'' = None \<Longrightarrow>
   \<exists>e. load_selected_torsions files json_load = Inl e"
  by (auto simp add: load_selected_torsions_def read_selected_torsions_def open_json_def
      split: sum.splits)

text \<open>
  Claim C2, as amended. In the torsion script, when \<open>add_entry\<close> raises a \<open>KeyError\<close>
  for an entry that passed the connectivity check, the loop goes on with the next entry,
  the counter \<open>i\<close> unchanged and no save made; when it raises anything else, the loop
  stops there with that exception. In the optimization script every exception of
  \<open>add_entry\<close>, a \<open>KeyError\<close> included, stops the loop: there is no handler.
\<close>

theorem duplicate_key_handling:
  "(td_initial_molecules (snd item) = first # others \<and> Molecule first = Inr molecule \<and>
    length (symbols molecule) < length (g (symbols molecule) (geometry molecule)) + 3 \<and>
    a calls (torsion_call_of item) = Some e \<longrightarrow>
      (is_KeyError e \<longrightarrow>
         entry_loop Molecule g a (item # rest) i calls =
           entry_loop Molecule g a rest i (calls @ [AddEntry (torsion_call_of item) (Some e)])) \<and>
      (\<not> is_KeyError e \<longrightarrow>
         entry_loop Molecule g a (item # rest) i calls =
           (Some e, i, calls @ [AddEntry (torsion_call_of item) (Some e)]))) \<and>
   (a' calls' (opt_call_of ma p) = Some e' \<longrightarrow>
      add_molecules a' (p # rest') ma calls' =
        (Some e', calls' @ [AddEntry (opt_call_of ma p) (Some e')]))"
proof (intro conjI impI)
  assume h: "td_initial_molecules (snd item) = first # others \<and> Molecule first = Inr molecule \<and>
    length (symbols molecule) < length (g (symbols molecule) (geometry molecule)) + 3 \<and>
    a calls (torsion_call_of item) = Some e"
  then have step: "entry_step Molecule g a item i calls =
      (if is_KeyError e then (None, i, calls @ [AddEntry (torsion_call_of item) (Some e)])
       else (Some e, i, calls @ [AddEntry (torsion_call_of item) (Some e)]))"
    using entry_step_checked [of item first others Molecule molecule g a i calls] by simp
  {
    assume "is_KeyError e"
    then show "entry_loop Molecule g a (item # rest) i calls =
           entry_loop Molecule g a rest i (calls @ [AddEntry (torsion_call_of item) (Some e)])"
      by (simp add: step)
  next
    assume "\<not> is_KeyError e"
    then show "entry_loop Molecule g a (item # rest) i calls =
           (Some e, i, calls @ [AddEntry (torsion_call_of item) (Some e)])"
      by (simp add: step)
  }
next
  assume h: "a' calls' (opt_call_of ma p) = Some e'"
  obtain k m where p: "p = (k, m)" by (cases p) auto
  from h have "a' calls' \<lparr>entry_index = k, entry_molecule = m,
      entry_attributes = dict_get ma k []\<rparr> = Some e'"
    by (simp add: opt_call_of_def p)
  then show "add_molecules a' (p # rest') ma calls' =
        (Some e', calls' @ [AddEntry (opt_call_of ma p) (Some e')])"
    unfolding p add_molecules_Cons by (simp add: opt_call_of_def)
qed

lemma example_rot_1_valid:
  "td_initial_molecules (snd example_rot_1) = example_ethane # []"
  "example_Molecule example_ethane =
     Inr \<lparr>symbols = fst example_ethane, geometry = snd example_ethane\<rparr>"
  "length (symbols \<lparr>symbols = fst example_ethane, geometry = snd example_ethane\<rparr>) <
   length (example_guess_connectivity
      (symbols \<lparr>symbols = fst example_ethane, geometry = snd example_ethane\<rparr>)
      (geometry \<lparr>symbols = fst example_ethane, geometry = snd example_ethane\<rparr>)) + 3"
  by (simp_all add: example_rot_1_def example_Molecule_def example_guess_connectivity_def
      example_ethane_def)

theorem duplicate_key_handling_witness:
  "example_reject_rot_1 [] (torsion_call_of example_rot_1) = Some (KeyError ''rot_1'') \<and>
   is_KeyError (KeyError ''rot_1'') \<and>
   entry_loop example_Molecule example_guess_connectivity example_reject_rot_1
     [example_rot_1, example_rot_2] 0 [] =
   entry_loop example_Molecule example_guess_connectivity example_reject_rot_1
     [example_rot_2] 0 [AddEntry (torsion_call_of example_rot_1) (Some (KeyError ''rot_1''))] \<and>
   example_reject_first [] (opt_call_of example_molecule_attributes (''CCO-0'', 1)) =
     Some (KeyError ''CCO-0'') \<and>
   add_molecules example_reject_first ((''CCO-0'', 1) # [(''CCO-1'', 2)])
     example_molecule_attributes [] =
   (Some (KeyError ''CCO-0''),
    [] @ [AddEntry (opt_call_of example_molecule_attributes (''CCO-0'', 1))
            (Some (KeyError ''CCO-0''))])"
proof -
  have a: "example_reject_rot_1 [] (torsion_call_of example_rot_1) = Some (KeyError ''rot_1'')"
    by (simp add: example_reject_rot_1_def torsion_call_of_def example_rot_1_def)
  have b: "example_reject_first [] (opt_call_of example_molecule_attributes (''CCO-0'', 1)) =
     Some (KeyError ''CCO-0'')"
    by (simp add: example_reject_first_def opt_call_of_def)
  note t = duplicate_key_handling [of example_rot_1 example_ethane "[]" example_Molecule
      "\<lparr>symbols = fst example_ethane, geometry = snd example_ethane\<rparr>"
      example_guess_connectivity example_reject_rot_1 "[]" "KeyError ''rot_1''"
      "[example_rot_2]" 0 example_reject_first "[]" example_molecule_attributes
      "(''CCO-0'', 1)" "KeyError ''CCO-0''" "[(''CCO-1'', 2)]"]
  show ?thesis using t a b example_rot_1_valid by simp
qed

text \<open>
  The claim as stated fails on the optimization script: when the service rejects the
  first of four entries with a duplicate-key error, the run ends with that \<open>KeyError\<close>
  after a single \<open>add_entry\<close> call.
\<close>

theorem optimization_duplicate_key_counterexample:
  "fst (create_optimization_dataset example_reject_first example_molecules_dict
          ''client.json'' ''example'' ''b3lyp-d3bj'' ''dzvp'' ''default'' example_molecule_attributes False) =
     Some (KeyError ''CCO-0'') \<and>
   length (add_calls (snd (create_optimization_dataset example_reject_first
          example_molecules_dict ''client.json'' ''example'' ''b3lyp-d3bj'' ''dzvp'' ''default'' example_molecule_attributes False))) = 1 \<and>
   length example_molecules_dict = 4"
  by code_simp

lemma entry_loop_append:
  "entry_loop Molecule g a (xs @ ys) i calls =
     (case entry_loop Molecule g a xs i calls of
        (None, i', calls') \<Rightarrow> entry_loop Molecule g a ys i' calls'
      | (Some e, i', calls') \<Rightarrow> (Some e, i', calls'))"
proof (induction xs arbitrary: i calls)
  case Nil
  show ?case by simp
next
  case (Cons x xs)
  obtain r1 i1 calls1 where step: "entry_step Molecule g a x i calls = (r1, i1, calls1)"
    by (cases "entry_step Molecule g a x i calls") auto
  show ?case
    by (cases r1) (simp_all add: step Cons.IH)
qed

text \<open>
  Claim C5. For a torsion record whose first molecule the toolkit accepts, the iteration
  stops with the assertion error, before any call on the dataset, exactly when the number
  of guessed bonds plus 3 does not exceed the number of atoms; the whole run then ends with
  that error, without the final save and without \<open>compute\<close>. When the check passes, the
  next call on the dataset is \<open>add_entry\<close> with the record's molecules as loaded.
\<close>

theorem connectivity_check:
  assumes "td_initial_molecules (snd item) = first # others"
    and "Molecule first = Inr molecule"
  shows "(entry_step Molecule g a item i calls = (Some (AssertionError ''conn''), i, calls) \<longleftrightarrow>
            length (g (symbols molecule) (geometry molecule)) + 3 \<le> length (symbols molecule)) \<and>
         (length (g (symbols molecule) (geometry molecule)) + 3 \<le> length (symbols molecule) \<and>
          entry_loop Molecule g a before 0
            [NewDataset None ''OpenFF Gen 2 Torsion Set 2 Coverage'', AddSpecification ''default'' ''B3LYP-d3bj'' ''dzvp''] =
            (None, i, calls) \<longrightarrow>
            submit_torsions Molecule g a (before @ item # rest) =
              (Some (AssertionError ''conn''), i, calls)) \<and>
         (length (symbols molecule) < length (g (symbols molecule) (geometry molecule)) + 3 \<longrightarrow>
            (\<exists>r i' ext. entry_step Molecule g a item i calls =
               (r, i', calls @ AddEntry (torsion_call_of item) (a calls (torsion_call_of item)) # ext)) \<and>
            call_initial_molecules (torsion_call_of item) = td_initial_molecules (snd item))"
proof (intro conjI impI)
  show "(entry_step Molecule g a item i calls = (Some (AssertionError ''conn''), i, calls)) =
        (length (g (symbols molecule) (geometry molecule)) + 3 \<le> length (symbols molecule))"
  proof (cases "length (symbols molecule) < length (g (symbols molecule) (geometry molecule)) + 3")
    case False
    then have le: "length (g (symbols molecule) (geometry molecule)) + 3 \<le> length (symbols molecule)"
      by simp
    show ?thesis
      using entry_step_disconnected [where Molecule = Molecule and g = g, OF assms le] le by simp
  next
    case True
    note step = entry_step_checked [of item first others Molecule molecule g a i calls,
        OF assms True]
    have "entry_step Molecule g a item i calls \<noteq> (Some (AssertionError ''conn''), i, calls)"
      unfolding step by (cases "a calls (torsion_call_of item)") (simp_all split: if_splits)
    then show ?thesis using True by simp
  qed
next
  assume h: "length (g (symbols molecule) (geometry molecule)) + 3 \<le> length (symbols molecule) \<and>
          entry_loop Molecule g a before 0
            [NewDataset None ''OpenFF Gen 2 Torsion Set 2 Coverage'', AddSpecification ''default'' ''B3LYP-d3bj'' ''dzvp''] =
            (None, i, calls)"
  then have le: "length (g (symbols molecule) (geometry molecule)) + 3 \<le> length (symbols molecule)"
    by simp
  have step: "entry_step Molecule g a item i calls = (Some (AssertionError ''conn''), i, calls)"
    by (rule entry_step_disconnected [where Molecule = Molecule and g = g, OF assms le])
  have "entry_loop Molecule g a (before @ item # rest) 0
            [NewDataset None ''OpenFF Gen 2 Torsion Set 2 Coverage'', AddSpecification ''default'' ''B3LYP-d3bj'' ''dzvp''] =
        (Some (AssertionError ''conn''), i, calls)"
    using h by (simp add: entry_loop_append step)
  then show "submit_torsions Molecule g a (before @ item # rest) =
              (Some (AssertionError ''conn''), i, calls)"
    by (simp add: submit_torsions_def)
next
  assume True: "length (symbols molecule) < length (g (symbols molecule) (geometry molecule)) + 3"
  note step = entry_step_checked [of item first others Molecule molecule g a i calls,
      OF assms True]
  show "\<exists>r i' ext. entry_step Molecule g a item i calls =
               (r, i', calls @ AddEntry (torsion_call_of item) (a calls (torsion_call_of item)) # ext)"
    unfolding step by (cases "a calls (torsion_call_of item)") (simp_all split: if_splits)
next
  show "call_initial_molecules (torsion_call_of item) = td_initial_molecules (snd item)"
    by (simp add: torsion_call_of_def)
qed

lemma submit_torsions_unfold:
  "entry_loop Molecule g a selected 0
     [NewDataset None ''OpenFF Gen 2 Torsion Set 2 Coverage'', AddSpecification ''default'' ''B3LYP-d3bj'' ''dzvp''] =
     (r, i, body) \<Longrightarrow>
   submit_torsions Molecule g a selected =
      (case r of Some e \<Rightarrow> (Some e, i, body)
       | None \<Rightarrow> (None, i, body @ [Save, Compute ''default'' (Some ''openff'')]))"
  by (cases r) (simp_all add: submit_torsions_def)

lemma submit_torsions_calls:
  fixes a :: "'raw torsion_call event list \<Rightarrow> 'raw torsion_call \<Rightarrow> exn option"
  shows "\<exists>n\<le>length selected.
     add_calls (snd (snd (submit_torsions Molecule g a selected))) =
       map torsion_call_of (take n selected) \<and>
     (fst (submit_torsions Molecule g a selected) = None \<longrightarrow> n = length selected)"
proof -
  define init :: "'raw torsion_call event list" where
    "init = [NewDataset None ''OpenFF Gen 2 Torsion Set 2 Coverage'', AddSpecification ''default'' ''B3LYP-d3bj'' ''dzvp'']"
  have ai: "add_calls init = []" by (simp add: init_def)
  obtain r i body where loop: "entry_loop Molecule g a selected 0 init = (r, i, body)"
    by (cases "entry_loop Molecule g a selected 0 init") auto
  from entry_loop_calls [OF loop] obtain n where "\<exists>ext. n \<le> length selected \<and>
      body = init @ ext \<and> add_calls ext = map torsion_call_of (take n selected) \<and>
      (r = None \<longrightarrow> n = length selected)" ..
  then obtain ext where all: "n \<le> length selected \<and>
      body = init @ ext \<and> add_calls ext = map torsion_call_of (take n selected) \<and>
      (r = None \<longrightarrow> n = length selected)" ..
  from all have n: "n \<le> length selected" by (rule conjunct1)
  from all have b: "body = init @ ext" by simp
  from all have e: "add_calls ext = map torsion_call_of (take n selected)" by simp
  from all have f: "r = None \<longrightarrow> n = length selected" by simp
  have ab: "add_calls body = map torsion_call_of (take n selected)"
    by (simp add: b ai e)
  note res = submit_torsions_unfold [OF loop [unfolded init_def]]
  have "n \<le> length selected \<and>
     add_calls (snd (snd (submit_torsions Molecule g a selected))) =
       map torsion_call_of (take n selected) \<and>
     (fst (submit_torsions Molecule g a selected) = None \<longrightarrow> n = length selected)"
  proof (cases r)
    case None
    then show ?thesis using ab f n by (simp add: res)
  next
    case (Some e)
    then show ?thesis using ab n by (simp add: res)
  qed
  then show ?thesis by (rule exI [of _ n])
qed

text \<open>
  Claim C6. Every \<open>add_entry\<close> call of the torsion script carries a list of grid
  spacings made of one 15 per atom-index tuple, so both lists have the same length; and a
  run over the single record with atom indices \<open>[[0,1,2,3]]\<close> whose first molecule passes
  the check makes exactly one \<open>add_entry\<close> call, with grid spacings \<open>[15]\<close>.
\<close>

theorem grid_spacings_per_torsion:
  fixes a :: "'raw torsion_call event list \<Rightarrow> 'raw torsion_call \<Rightarrow> exn option"
  shows "(\<forall>c \<in> set (add_calls (snd (snd (submit_torsions Molecule g a selected)))).
      call_grid_spacings c = replicate (length (call_atom_indices c)) 15 \<and>
      length (call_grid_spacings c) = length (call_atom_indices c)) \<and>
   (td_atom_indices td = [[0, 1, 2, 3]] \<and> td_initial_molecules td = first # others \<and>
    Molecule first = Inr molecule \<and>
    length (symbols molecule) < length (g (symbols molecule) (geometry molecule)) + 3 \<longrightarrow>
      add_calls (snd (snd (submit_torsions Molecule g a [(k, td)]))) =
        [\<lparr>call_index = k, call_initial_molecules = first # others,
          call_atom_indices = [[0, 1, 2, 3]], call_grid_spacings = [15],
          call_attributes = td_attributes td\<rparr>])"
proof (intro conjI ballI impI)
  fix c
  assume c: "c \<in> set (add_calls (snd (snd (submit_torsions Molecule g a selected))))"
  from submit_torsions_calls [of selected Molecule g a]
  obtain n where "n \<le> length selected \<and>
     add_calls (snd (snd (submit_torsions Molecule g a selected))) =
       map torsion_call_of (take n selected) \<and>
     (fst (submit_torsions Molecule g a selected) = None \<longrightarrow> n = length selected)" ..
  then have "add_calls (snd (snd (submit_torsions Molecule g a selected))) =
       map torsion_call_of (take n selected)" by simp
  with c have "c \<in> torsion_call_of ` set (take n selected)" by simp
  then obtain item where item: "c = torsion_call_of item" ..
  show "call_grid_spacings c = replicate (length (call_atom_indices c)) 15"
    by (simp add: item torsion_call_of_def)
  show "length (call_grid_spacings c) = length (call_atom_indices c)"
    by (simp add: item torsion_call_of_def)
next
  assume h: "td_atom_indices td = [[0, 1, 2, 3]] \<and> td_initial_molecules td = first # others \<and>
    Molecule first = Inr molecule \<and>
    length (symbols molecule) < length (g (symbols molecule) (geometry molecule)) + 3"
  define init :: "'raw torsion_call event list" where
    "init = [NewDataset None ''OpenFF Gen 2 Torsion Set 2 Coverage'', AddSpecification ''default'' ''B3LYP-d3bj'' ''dzvp'']"
  have ai: "add_calls init = []" by (simp add: init_def)
  define c where "c = torsion_call_of (k, td)"
  have c: "c = \<lparr>call_index = k, call_initial_molecules = first # others,
          call_atom_indices = [[0, 1, 2, 3]], call_grid_spacings = [15],
          call_attributes = td_attributes td\<rparr>"
    using h by (simp add: c_def torsion_call_of_def)
  from h have h1: "td_initial_molecules (snd (k, td)) = first # others" by simp
  from h have h2: "Molecule first = Inr molecule" by simp
  from h have h3: "length (symbols molecule) < length (g (symbols molecule) (geometry molecule)) + 3"
    by simp
  note checked = entry_step_checked [of "(k, td)" first others Molecule molecule g a 0 init,
      OF h1 h2 h3, folded c_def]
  obtain r i body where loop: "entry_loop Molecule g a [(k, td)] 0 init = (r, i, body)"
    by (cases "entry_loop Molecule g a [(k, td)] 0 init") auto
  have body: "add_calls body = [c]"
  proof (cases "a init c")
    case None
    then have "entry_step Molecule g a (k, td) 0 init = (None, 1, init @ [AddEntry c None])"
      unfolding checked by simp
    then have "body = init @ [AddEntry c None]" using loop by simp
    then show ?thesis by (simp add: ai)
  next
    case (Some e)
    then have "entry_step Molecule g a (k, td) 0 init =
        (if is_KeyError e then None else Some e, 0, init @ [AddEntry c (Some e)])"
      unfolding checked by simp
    then have "body = init @ [AddEntry c (Some e)]" using loop
      by (cases "is_KeyError e") auto
    then show ?thesis by (simp add: ai)
  qed
  note res = submit_torsions_unfold [OF loop [unfolded init_def]]
  have "add_calls (snd (snd (submit_torsions Molecule g a [(k, td)]))) = [c]"
    unfolding res using body by (cases r) simp_all
  then show "add_calls (snd (snd (submit_torsions Molecule g a [(k, td)]))) =
        [\<lparr>call_index = k, call_initial_molecules = first # others,
          call_atom_indices = [[0, 1, 2, 3]], call_grid_spacings = [15],
          call_attributes = td_attributes td\<rparr>]"
    unfolding c .
qed

lemma example_rot_bad_invalid:
  "td_initial_molecules (snd example_rot_bad) = example_fragments # []"
  "example_Molecule example_fragments =
     Inr \<lparr>symbols = fst example_fragments, geometry = snd example_fragments\<rparr>"
  "length (example_guess_connectivity
      (symbols \<lparr>symbols = fst example_fragments, geometry = snd example_fragments\<rparr>)
      (geometry \<lparr>symbols = fst example_fragments, geometry = snd example_fragments\<rparr>)) + 3 \<le>
   length (symbols \<lparr>symbols = fst example_fragments, geometry = snd example_fragments\<rparr>)"
  by (simp_all add: example_rot_bad_def example_Molecule_def example_guess_connectivity_def
      example_fragments_def)

lemma example_loop_rot_1:
  "entry_loop example_Molecule example_guess_connectivity example_accept_all [example_rot_1] 0
     [NewDataset None ''OpenFF Gen 2 Torsion Set 2 Coverage'', AddSpecification ''default'' ''B3LYP-d3bj'' ''dzvp''] =
   (None, 1, [NewDataset None ''OpenFF Gen 2 Torsion Set 2 Coverage'', AddSpecification ''default'' ''B3LYP-d3bj'' ''dzvp'',
              AddEntry (torsion_call_of example_rot_1) None])"
  using entry_step_checked [where Molecule = example_Molecule and a = example_accept_all
      and g = example_guess_connectivity and i = 0
      and calls = "[NewDataset None ''OpenFF Gen 2 Torsion Set 2 Coverage'', AddSpecification ''default'' ''B3LYP-d3bj'' ''dzvp'']",
      OF example_rot_1_valid]
  by (simp add: example_accept_all_def)

theorem connectivity_check_witness:
  "length (example_guess_connectivity (fst example_fragments) (snd example_fragments)) + 3 \<le>
     length (fst example_fragments) \<and>
   submit_torsions example_Molecule example_guess_connectivity example_accept_all
     ([example_rot_1] @ example_rot_bad # [example_rot_2]) =
     (Some (AssertionError ''conn''), 1,
      [NewDataset None ''OpenFF Gen 2 Torsion Set 2 Coverage'', AddSpecification ''default'' ''B3LYP-d3bj'' ''dzvp'',
       AddEntry (torsion_call_of example_rot_1) None]) \<and>
   length (fst example_ethane) <
     length (example_guess_connectivity (fst example_ethane) (snd example_ethane)) + 3 \<and>
   entry_step example_Molecule example_guess_connectivity example_accept_all example_rot_1 0 [] \<noteq>
     (Some (AssertionError ''conn''), 0, [])"
proof -
  note bad = connectivity_check [where Molecule = example_Molecule
      and g = example_guess_connectivity and a = example_accept_all
      and i = 1 and before = "[example_rot_1]" and rest = "[example_rot_2]"
      and calls = "[NewDataset None ''OpenFF Gen 2 Torsion Set 2 Coverage'', AddSpecification ''default'' ''B3LYP-d3bj'' ''dzvp'',
       AddEntry (torsion_call_of example_rot_1) None]",
      OF example_rot_bad_invalid(1) example_rot_bad_invalid(2)]
  note good = connectivity_check [where Molecule = example_Molecule
      and g = example_guess_connectivity and a = example_accept_all
      and i = 0 and calls = "[]" and before = "[]" and rest = "[]",
      OF example_rot_1_valid(1) example_rot_1_valid(2)]
  have 1: "submit_torsions example_Molecule example_guess_connectivity example_accept_all
     ([example_rot_1] @ example_rot_bad # [example_rot_2]) =
     (Some (AssertionError ''conn''), 1,
      [NewDataset None ''OpenFF Gen 2 Torsion Set 2 Coverage'', AddSpecification ''default'' ''B3LYP-d3bj'' ''dzvp'',
       AddEntry (torsion_call_of example_rot_1) None])"
    using bad example_rot_bad_invalid(3) example_loop_rot_1 by simp
  have 2: "entry_step example_Molecule example_guess_connectivity example_accept_all
      example_rot_1 0 [] \<noteq> (Some (AssertionError ''conn''), 0, [])"
    using good example_rot_1_valid(3) by simp
  show ?thesis using 1 2 example_rot_bad_invalid(3) example_rot_1_valid(3) by simp
qed

lemma example_two_calls:
  "add_calls (snd (snd (submit_torsions example_Molecule example_guess_connectivity
      example_accept_all [example_rot_1, example_rot_2]))) =
   [torsion_call_of example_rot_1, torsion_call_of example_rot_2]"
  by code_simp

theorem grid_spacings_per_torsion_witness:
  "td_atom_indices (snd example_rot_1) = [[0, 1, 2, 3]] \<and>
   add_calls (snd (snd (submit_torsions example_Molecule example_guess_connectivity
      example_accept_all [example_rot_1]))) =
     [\<lparr>call_index = ''rot_1'', call_initial_molecules = [example_ethane],
       call_atom_indices = [[0, 1, 2, 3]], call_grid_spacings = [15],
       call_attributes = [(''canonical_isomeric_smiles'', JStr ''CC'')]\<rparr>] \<and>
   torsion_call_of example_rot_2 \<in>
     set (add_calls (snd (snd (submit_torsions example_Molecule example_guess_connectivity
        example_accept_all [example_rot_1, example_rot_2])))) \<and>
   call_grid_spacings (torsion_call_of example_rot_2) = [15, 15] \<and>
   length (call_atom_indices (torsion_call_of example_rot_2)) = 2"
proof -
  have r: "example_rot_1 = (''rot_1'', snd example_rot_1)" by (simp add: example_rot_1_def)
  have t: "td_atom_indices (snd example_rot_1) = [[0, 1, 2, 3]]"
    and at: "td_attributes (snd example_rot_1) = [(''canonical_isomeric_smiles'', JStr ''CC'')]"
    by (simp_all add: example_rot_1_def)
  note one = grid_spacings_per_torsion [where Molecule = example_Molecule
      and g = example_guess_connectivity and a = example_accept_all
      and td = "snd example_rot_1" and k = "''rot_1''" and first = example_ethane
      and others = "[]"
      and molecule = "\<lparr>symbols = fst example_ethane, geometry = snd example_ethane\<rparr>"
      and selected = "[example_rot_1, example_rot_2]", folded r]
  have m: "torsion_call_of example_rot_2 \<in>
     set (add_calls (snd (snd (submit_torsions example_Molecule example_guess_connectivity
        example_accept_all [example_rot_1, example_rot_2]))))"
    by (simp add: example_two_calls)
  have l: "length (call_atom_indices (torsion_call_of example_rot_2)) = 2"
    by (simp add: torsion_call_of_def example_rot_2_def)
  from one m have "call_grid_spacings (torsion_call_of example_rot_2) =
      replicate (length (call_atom_indices (torsion_call_of example_rot_2))) 15"
    by simp
  then have g: "call_grid_spacings (torsion_call_of example_rot_2) = [15, 15]"
    by (simp add: l numeral_2_eq_2)
  show ?thesis using one t at example_rot_1_valid m g l by simp
qed

subsection \<open>What reaches \<open>add_entry\<close>\<close>






















end
